theory Spec2Isabelle
  imports Complex_Main "HOL-Library.Sublist"
begin

section \<open>Python values\<close>

text \<open>
  The program works on decoded JSON: the values \<open>json.loads\<close> returns. A Python \<open>dict\<close>
  keeps its keys in insertion order, so an object is an association list; \<open>dict.get\<close> is
  \<open>map_of\<close>. A string is a sequence of code points below 256, one \<open>char\<close> each; among
  these the decimal digits are \<open>0\<close> to \<open>9\<close>, and only the ASCII letters match the letters of
  the duration pattern.
\<close>

datatype pyfloat = Finite rat | PosInf | NegInf | NaN

datatype json =
    JNull
  | JBool bool
  | JInt int
  | JFloat pyfloat
  | JStr string
  | JArr "json list"
  | JObj "(string \<times> json) list"

text \<open>The exceptions of the interpreter that no handler of the program catches.\<close>

datatype py_error = AttributeError | TypeError | ValueError

text \<open>Truth value testing, as \<open>not x\<close>, \<open>x or y\<close> and \<open>if x\<close> do it.\<close>

fun truthy :: "json \<Rightarrow> bool" where
  "truthy JNull = False"
| "truthy (JBool b) = b"
| "truthy (JInt n) = (n \<noteq> 0)"
| "truthy (JFloat f) = (f \<noteq> Finite 0)"
| "truthy (JStr s) = (s \<noteq> [])"
| "truthy (JArr xs) = (xs \<noteq> [])"
| "truthy (JObj kvs) = (kvs \<noteq> [])"

definition py_or :: "json \<Rightarrow> json \<Rightarrow> json" where
  "py_or a b = (if truthy a then a else b)"

text \<open>\<open>d.get(k, default)\<close>: only a dict has the method.\<close>

fun dict_get :: "json \<Rightarrow> string \<Rightarrow> json \<Rightarrow> py_error + json" where
  "dict_get (JObj kvs) k d = Inr (case map_of kvs k of None \<Rightarrow> d | Some v \<Rightarrow> v)"
| "dict_get _ k d = Inl AttributeError"

section \<open>Strings\<close>

text \<open>
  A \<open>string\<close> is a list of characters with code points below 256. Among these the
  whitespace of \<open>str.strip()\<close> and of the pattern \<open>\s\<close> (the two agree on \<open>str\<close>) is:
  TAB, LF, VT, FF, CR, the separators 0x1C to 0x1F, the space, NEL (0x85) and the
  no-break space (0xA0).
\<close>

definition is_space :: "char \<Rightarrow> bool" where
  "is_space c \<longleftrightarrow> c \<in> set [CHR 0x09, CHR 0x0A, CHR 0x0B, CHR 0x0C, CHR 0x0D,
                        CHR 0x1C, CHR 0x1D, CHR 0x1E, CHR 0x1F, CHR 0x20, CHR 0x85, CHR 0xA0]"

definition strip :: "string \<Rightarrow> string" where
  "strip s = rev (dropWhile is_space (rev (dropWhile is_space s)))"

definition is_digit :: "char \<Rightarrow> bool" where
  "is_digit c \<longleftrightarrow> c \<in> set ''0123456789''"

text \<open>The value of a decimal digit: its code point less that of \<open>0\<close>.\<close>

fun digit_val :: "char \<Rightarrow> nat" where
  "digit_val c = of_char c - 48"

definition digit_char :: "nat \<Rightarrow> char" where
  "digit_char d = ''0123456789'' ! d"

text \<open>The number that a string of decimal digits denotes.\<close>

definition decimal_value :: "string \<Rightarrow> nat" where
  "decimal_value ds = foldl (\<lambda>a c. 10 * a + digit_val c) 0 ds"

text \<open>The decimal digits of a natural number, without leading zeros.\<close>

fun str_nat :: "nat \<Rightarrow> string" where
  "str_nat n = (if n < 10 then [digit_char n] else str_nat (n div 10) @ [digit_char (n mod 10)])"

declare str_nat.simps [simp del]

text \<open>
  The interpreter refuses a conversion between \<open>int\<close> and \<open>str\<close> of more than
  \<open>sys.get_int_max_str_digits()\<close> digits, 4300 unless it is configured otherwise, with a
  \<open>ValueError\<close>. \<open>int(s)\<close> on a string of decimal digits (leading zeros count), \<open>str(n)\<close>
  and the format \<open>f"{n:02d}"\<close> (zeros on the left up to a width of two):
\<close>

definition int_max_str_digits :: nat where
  "int_max_str_digits = 4300"

definition py_int :: "string \<Rightarrow> py_error + nat" where
  "py_int ds = (if int_max_str_digits < length ds then Inl ValueError else Inr (decimal_value ds))"

definition py_str :: "nat \<Rightarrow> py_error + string" where
  "py_str n = (if int_max_str_digits < length (str_nat n) then Inl ValueError else Inr (str_nat n))"

definition fmt_02d :: "nat \<Rightarrow> string" where
  "fmt_02d n = replicate (2 - length (str_nat n)) (CHR ''0'') @ str_nat n"

definition py_fmt_02d :: "nat \<Rightarrow> py_error + string" where
  "py_fmt_02d n = (if int_max_str_digits < length (str_nat n) then Inl ValueError else Inr (fmt_02d n))"

text \<open>\<open>sep.join(parts)\<close>.\<close>

fun join :: "string \<Rightarrow> string list \<Rightarrow> string" where
  "join sep [] = []"
| "join sep [x] = x"
| "join sep (x # y # ys) = x @ sep @ join sep (y # ys)"

section \<open>Duration (ISO 8601)\<close>

text \<open>
  \<open>DURATION_RE = re.compile(r"PT(?:(\d+)H)?(?:(\d+)M)?(?:(\d+)S)?", re.IGNORECASE)\<close>,
  used through \<open>DURATION_RE.match\<close>: the pattern is matched at the start of the string and
  nothing anchors its end. An optional group \<open>(?:(\d+)X)?\<close> takes the longest run of digits
  and succeeds when the letter follows it; otherwise the group is skipped and captures
  \<open>None\<close>. Nothing follows the last group, so the matcher never backtracks into a group
  that has matched. The letters are given in both cases, for \<open>re.IGNORECASE\<close>.
\<close>

definition match_group :: "string \<Rightarrow> string \<Rightarrow> string option \<times> string" where
  "match_group letters s =
     (let ds = takeWhile is_digit s; rest = dropWhile is_digit s
      in if ds \<noteq> [] \<and> rest \<noteq> [] \<and> hd rest \<in> set letters then (Some ds, tl rest)
         else (None, s))"

fun DURATION_RE_match :: "string \<Rightarrow> (string option \<times> string option \<times> string option) option" where
  "DURATION_RE_match (p # t # r) =
     (if p \<in> set ''Pp'' \<and> t \<in> set ''Tt'' then
        (let (h, r1) = match_group ''Hh'' r;
             (mn, r2) = match_group ''Mm'' r1;
             (s, r3) = match_group ''Ss'' r2
         in Some (h, mn, s))
      else None)"
| "DURATION_RE_match _ = None"

text \<open>\<open>int(g or 0)\<close> for a captured group \<open>g\<close>.\<close>

fun int_or_0 :: "string option \<Rightarrow> py_error + nat" where
  "int_or_0 None = Inr 0"
| "int_or_0 (Some ds) = (if ds = [] then Inr 0 else py_int ds)"

text \<open>
  \<open>parse_duration\<close>. The argument is whatever the item holds: a falsy value gives the
  empty string, and \<open>.strip()\<close> on a truthy value that is not a string raises. The three
  conversions and the three formats come in the order of the source; the first that
  raises ends the call.
\<close>

fun parse_duration :: "json \<Rightarrow> py_error + json" where
  "parse_duration iso_duration =
     (if \<not> truthy iso_duration then Inr (JStr [])
      else case iso_duration of
        JStr raw \<Rightarrow>
          (case DURATION_RE_match (strip raw) of
             None \<Rightarrow> Inr iso_duration
           | Some (h, mn, s) \<Rightarrow>
               (case int_or_0 h of Inl e \<Rightarrow> Inl e | Inr h \<Rightarrow>
               (case int_or_0 mn of Inl e \<Rightarrow> Inl e | Inr mn \<Rightarrow>
               (case int_or_0 s of Inl e \<Rightarrow> Inl e | Inr s \<Rightarrow>
               (case (if h \<noteq> 0 then (case py_str h of Inl e \<Rightarrow> Inl e | Inr x \<Rightarrow> Inr [x])
                      else Inr []) of Inl e \<Rightarrow> Inl e | Inr hours \<Rightarrow>
               (case py_fmt_02d mn of Inl e \<Rightarrow> Inl e | Inr minutes \<Rightarrow>
               (case py_fmt_02d s of Inl e \<Rightarrow> Inl e | Inr seconds \<Rightarrow>
                  Inr (JStr (join '':'' (hours @ [minutes] @ [seconds]))))))))))
      | _ \<Rightarrow> Inl AttributeError)"

text \<open>
  \<open>s.replace(old, new)\<close>: the occurrences of \<open>old\<close> are found from the left and do not
  overlap; an empty \<open>old\<close> matches before every character and at the end.
\<close>

function str_replace :: "string \<Rightarrow> string \<Rightarrow> string \<Rightarrow> string" where
  "str_replace [] old new = (if old = [] then new else [])"
| "str_replace (c # cs) old new =
     (if old = [] then new @ c # str_replace cs old new
      else if prefix old (c # cs) then new @ str_replace (drop (length old) (c # cs)) old new
      else c # str_replace cs old new)"
  by pat_completeness auto
termination
  by (relation "measure (\<lambda>(s, old, new). length s)") auto

section \<open>Table columns\<close>

text \<open>\<open>(item.get(name) or {})\<close>\<close>

definition sub_mapping :: "json \<Rightarrow> string \<Rightarrow> py_error + json" where
  "sub_mapping item name =
     (case dict_get item name JNull of
        Inl e \<Rightarrow> Inl e
      | Inr v \<Rightarrow> Inr (py_or v (JObj [])))"

definition col_id :: "json \<Rightarrow> py_error + json" where
  "col_id item = dict_get item ''id'' (JStr [])"

definition col_title :: "json \<Rightarrow> py_error + json" where
  "col_title item =
     (case sub_mapping item ''snippet'' of
        Inl e \<Rightarrow> Inl e
      | Inr sn \<Rightarrow> dict_get sn ''title'' (JStr []))"

text \<open>
  The date column calls the standard library:
  \<open>datetime.fromisoformat(x).strftime("%Y-%m-%d")\<close> is the parameter \<open>iso_date\<close>, with
  \<open>None\<close> where it raises. Everything inside the \<open>try\<close> that raises (also \<open>.replace\<close> on a
  value that is not a string) ends in \<open>return raw\<close>.
\<close>

definition col_publication_date :: "(string \<Rightarrow> string option) \<Rightarrow> json \<Rightarrow> py_error + json" where
  "col_publication_date iso_date item =
     (case sub_mapping item ''snippet'' of
        Inl e \<Rightarrow> Inl e
      | Inr sn \<Rightarrow>
          (case dict_get sn ''publishedAt'' (JStr []) of
             Inl e \<Rightarrow> Inl e
           | Inr raw \<Rightarrow>
               if \<not> truthy raw then Inr (JStr [])
               else (case raw of
                       JStr s \<Rightarrow>
                         (case iso_date (str_replace s ''Z'' ''+00:00'') of
                            Some d \<Rightarrow> Inr (JStr d)
                          | None \<Rightarrow> Inr raw)
                     | _ \<Rightarrow> Inr raw)))"

definition col_channel_title :: "json \<Rightarrow> py_error + json" where
  "col_channel_title item =
     (case sub_mapping item ''snippet'' of
        Inl e \<Rightarrow> Inl e
      | Inr sn \<Rightarrow> dict_get sn ''channelTitle'' (JStr []))"

definition col_view_count :: "json \<Rightarrow> py_error + json" where
  "col_view_count item =
     (case sub_mapping item ''statistics'' of
        Inl e \<Rightarrow> Inl e
      | Inr st \<Rightarrow> dict_get st ''viewCount'' (JStr ''0''))"

definition col_like_count :: "json \<Rightarrow> py_error + json" where
  "col_like_count item =
     (case sub_mapping item ''statistics'' of
        Inl e \<Rightarrow> Inl e
      | Inr st \<Rightarrow> dict_get st ''likeCount'' (JStr ''0''))"

definition col_comment_count :: "json \<Rightarrow> py_error + json" where
  "col_comment_count item =
     (case sub_mapping item ''statistics'' of
        Inl e \<Rightarrow> Inl e
      | Inr st \<Rightarrow> dict_get st ''commentCount'' (JStr ''0''))"

definition col_duration :: "json \<Rightarrow> py_error + json" where
  "col_duration item =
     (case sub_mapping item ''contentDetails'' of
        Inl e \<Rightarrow> Inl e
      | Inr cd \<Rightarrow>
          (case dict_get cd ''duration'' (JStr []) of
             Inl e \<Rightarrow> Inl e
           | Inr raw \<Rightarrow> parse_duration raw))"

text \<open>Column id, then header label and extractor. The order here is the default order.\<close>

type_synonym extractor = "json \<Rightarrow> py_error + json"

definition COLUMN_EXTRACTORS ::
  "(string \<Rightarrow> string option) \<Rightarrow> (string \<times> string \<times> extractor) list" where
  "COLUMN_EXTRACTORS iso_date =
     [(''id'', ''id'', col_id),
      (''title'', ''title'', col_title),
      (''publication_date'', ''publication date'', col_publication_date iso_date),
      (''channel_title'', ''channel title'', col_channel_title),
      (''view_count'', ''view count'', col_view_count),
      (''like_count'', ''like count'', col_like_count),
      (''comment_count'', ''comment count'', col_comment_count),
      (''duration'', ''duration'', col_duration)]"

definition DEFAULT_TABLE_COLUMNS :: "string list" where
  "DEFAULT_TABLE_COLUMNS =
     [''id'', ''title'', ''publication_date'', ''channel_title'',
      ''view_count'', ''like_count'', ''comment_count'', ''duration'']"

text \<open>
  A row is a \<open>dict\<close> from label to cell. \<open>row[label] = v\<close> overwrites the cell of a label
  the row has, where it stands, and puts a new label last.
\<close>

type_synonym row = "(string \<times> json) list"

fun dict_set :: "row \<Rightarrow> string \<Rightarrow> json \<Rightarrow> row" where
  "dict_set [] k v = [(k, v)]"
| "dict_set ((k', v') # kvs) k v =
     (if k' = k then (k', v) # kvs else (k', v') # dict_set kvs k v)"

text \<open>\<open>_escape_pipes_for_markdown\<close>; the backslash is the character 0x5C.\<close>

definition escape_cell :: "json \<Rightarrow> json" where
  "escape_cell v = (case v of JStr s \<Rightarrow> JStr (str_replace s ''|'' [CHR 0x5C, CHR ''|'']) | _ \<Rightarrow> v)"

definition escape_pipes_for_markdown :: "row list \<Rightarrow> row list" where
  "escape_pipes_for_markdown rows = map (map (\<lambda>(k, v). (k, escape_cell v))) rows"

text \<open>
  \<open>items_to_rows\<close>: the inner loop over the column ids, the outer loop over the items.
  An extractor that raises ends the whole call.
\<close>

fun build_row ::
  "(string \<times> string \<times> extractor) list \<Rightarrow> json \<Rightarrow> string list \<Rightarrow> row \<Rightarrow> py_error + row" where
  "build_row reg item [] row = Inr row"
| "build_row reg item (cid # cols) row =
     (case map_of reg cid of
        None \<Rightarrow> build_row reg item cols row
      | Some (label, extractor) \<Rightarrow>
          (case extractor item of
             Inl e \<Rightarrow> Inl e
           | Inr v \<Rightarrow> build_row reg item cols (dict_set row label v)))"

fun build_rows ::
  "(string \<times> string \<times> extractor) list \<Rightarrow> string list \<Rightarrow> json list \<Rightarrow> py_error + row list" where
  "build_rows reg columns [] = Inr []"
| "build_rows reg columns (item # items) =
     (case build_row reg item columns [] of
        Inl e \<Rightarrow> Inl e
      | Inr row \<Rightarrow>
          (case build_rows reg columns items of
             Inl e \<Rightarrow> Inl e
           | Inr rows \<Rightarrow> Inr (row # rows)))"

definition items_to_rows ::
  "(string \<Rightarrow> string option) \<Rightarrow> json list \<Rightarrow> string list option \<Rightarrow> py_error + row list" where
  "items_to_rows iso_date items columns =
     (let columns = (case columns of
                       None \<Rightarrow> DEFAULT_TABLE_COLUMNS
                     | Some cs \<Rightarrow> if cs = [] then DEFAULT_TABLE_COLUMNS else cs)
      in build_rows (COLUMN_EXTRACTORS iso_date) columns items)"

section \<open>Input: normalize IDs\<close>

text \<open>
  \<open>re.split(r"[\s,]+", s)\<close>: the pieces between the maximal runs of whitespace and commas,
  the empty piece before a leading run and after a trailing one included.
\<close>

definition is_sep :: "char \<Rightarrow> bool" where
  "is_sep c \<longleftrightarrow> is_space c \<or> c = CHR '',''"

function re_split :: "string \<Rightarrow> string list" where
  "re_split s =
     (let part = takeWhile (\<lambda>c. \<not> is_sep c) s; rest = dropWhile (\<lambda>c. \<not> is_sep c) s
      in if rest = [] then [part] else part # re_split (dropWhile is_sep rest))"
  by pat_completeness auto
termination
proof (relation "measure length")
  fix s part rest
  assume r: "rest = dropWhile (\<lambda>c. \<not> is_sep c) s" and ne: "rest \<noteq> []"
  from r ne have "is_sep (hd rest)"
    using hd_dropWhile [of "\<lambda>c. \<not> is_sep c" s] by auto
  with ne have "length (dropWhile is_sep rest) < length rest"
    by (cases rest) (auto intro: le_imp_less_Suc length_dropWhile_le)
  moreover have "length rest \<le> length s"
    unfolding r by (rule length_dropWhile_le)
  ultimately show "(dropWhile is_sep rest, s) \<in> measure length"
    by simp
qed simp

declare re_split.simps [simp del]

definition normalize_ids :: "string list \<Rightarrow> string list" where
  "normalize_ids raw =
     concat (map (\<lambda>s. filter (\<lambda>part. part \<noteq> []) (map strip (re_split s))) raw)"

section \<open>API\<close>

definition API_BASE :: string where
  "API_BASE = ''https://www.googleapis.com/youtube/v3/videos''"

definition PARTS :: string where
  "PARTS = ''snippet,contentDetails,statistics''"

definition BATCH_SIZE :: nat where
  "BATCH_SIZE = 50"

text \<open>
  What \<open>urlopen\<close> and reading the response come to: an \<open>HTTPError\<close> with its status code and
  decoded body (empty when the error carries none), a \<open>URLError\<close> with its reason, or the
  decoded body of the response.
\<close>

datatype http_result = HTTPError nat string | URLError string | Body string

text \<open>The value of \<open>--format\<close>, which \<open>argparse\<close> restricts to its two choices.\<close>

datatype format = Markdown | Grid

text \<open>
  What \<open>parser.parse_args()\<close> comes to for the parser that \<open>main\<close> builds: the namespace,
  with the positional arguments and the format; the help text printed on standard output
  and \<open>sys.exit(0)\<close>, for \<open>-h\<close> and \<open>--help\<close>; or the usage message printed on standard
  error and \<open>sys.exit(2)\<close>, for a command line the parser refuses.
\<close>

datatype parsed = Namespace "string list" format | HelpExit string | UsageError string

text \<open>
  The library the program calls, as parameters: \<open>parse_args\<close> on the command line,
  \<open>urlencode\<close>, \<open>urlopen\<close> (the remote side is a state \<open>'w\<close> that each request may
  change), \<open>json.loads\<close> (\<open>Inl\<close> the message of the exception it raises) and the date
  conversion of the publication date column.
\<close>

record 'w lib =
  parse_args :: "string list \<Rightarrow> parsed"
  urlencode :: "(string \<times> string) list \<Rightarrow> string"
  urlopen :: "'w \<Rightarrow> string \<Rightarrow> http_result \<times> 'w"
  json_loads :: "string \<Rightarrow> string + json"
  iso_date :: "string \<Rightarrow> string option"

text \<open>
  How a call ends when it does not return: \<open>sys.exit(n)\<close>, or an exception that nothing
  catches.
\<close>

datatype abort = SysExit nat | Uncaught py_error

text \<open>
  What the program prints on standard output: the help text of \<open>argparse\<close>, the prompt of
  \<open>input\<close>, and the table, kept as the arguments of
  \<open>tabulate(rows, headers="keys", tablefmt=...)\<close>.
\<close>

datatype out = Printed string | Prompt string | Table string "row list"

text \<open>
  The effects of a run: the remote side, the requests sent with what came back, and the
  two output streams.
\<close>

record 'w io =
  world :: 'w
  requests :: "(string \<times> http_result) list"
  stdout :: "out list"
  stderr :: "string list"

definition eprint :: "string \<Rightarrow> 'w io \<Rightarrow> 'w io" where
  "eprint msg io = io\<lparr>stderr := stderr io @ [msg]\<rparr>"

text \<open>\<open>range(0, n, step)\<close> for a positive step.\<close>

definition range_step :: "nat \<Rightarrow> nat \<Rightarrow> nat list" where
  "range_step n step = map (\<lambda>k. k * step) [0 ..< (n + step - 1) div step]"

text \<open>
  \<open>all_items.extend(x)\<close> iterates over \<open>x\<close>: a list gives its elements, a string its
  characters, a dict its keys; anything else is not iterable.
\<close>

fun py_iter :: "json \<Rightarrow> py_error + json list" where
  "py_iter (JArr xs) = Inr xs"
| "py_iter (JStr s) = Inr (map (\<lambda>c. JStr [c]) s)"
| "py_iter (JObj kvs) = Inr (map (\<lambda>(k, v). JStr k) kvs)"
| "py_iter _ = Inl TypeError"

definition get_api_key :: "string option \<Rightarrow> 'w io \<Rightarrow> (abort + string) \<times> 'w io" where
  "get_api_key env io =
     (let key = strip (case env of None \<Rightarrow> [] | Some v \<Rightarrow> v)
      in if key = [] then
           (Inl (SysExit 1), eprint ''yt-extract: Set YOUTUBE_DATA_API_KEY in your environment.'' io)
         else (Inr key, io))"

text \<open>
  \<open>fetch_videos\<close>. The URL of the request for one chunk:
\<close>

definition request_url :: "'w lib \<Rightarrow> string \<Rightarrow> string list \<Rightarrow> string" where
  "request_url L api_key chunk =
     (let params = [(''key'', api_key), (''part'', PARTS), (''id'', join '','' chunk)]
      in API_BASE @ ''?'' @ urlencode L params)"

text \<open>
  What the body of the loop makes of the response to one request: the items to append,
  or the way the run ends, with the line printed on standard error before \<open>sys.exit(1)\<close>
  (an exception that nothing catches prints no line of the program's own).
\<close>

definition response_items :: "'w lib \<Rightarrow> http_result \<Rightarrow> (abort \<times> string option) + json list" where
  "response_items L resp =
     (case resp of
        HTTPError code body \<Rightarrow>
          Inl (SysExit 1, Some (''yt-extract: API error '' @ str_nat code @ '': '' @ take 500 body))
      | URLError reason \<Rightarrow>
          Inl (SysExit 1, Some (''yt-extract: Request failed: '' @ reason))
      | Body data \<Rightarrow>
          (case json_loads L data of
             Inl e \<Rightarrow> Inl (SysExit 1, Some (''yt-extract: Invalid JSON response: '' @ e))
           | Inr payload \<Rightarrow>
               (case dict_get payload ''items'' JNull of
                  Inl e \<Rightarrow> Inl (Uncaught e, None)
                | Inr v \<Rightarrow>
                    (case py_iter (py_or v (JArr [])) of
                       Inl e \<Rightarrow> Inl (Uncaught e, None)
                     | Inr items \<Rightarrow> Inr items))))"

text \<open>The loop runs over the start indices \<open>range(0, len(video_ids), BATCH_SIZE)\<close>.\<close>

fun fetch_loop ::
  "'w lib \<Rightarrow> string \<Rightarrow> string list \<Rightarrow> nat list \<Rightarrow> json list \<Rightarrow> 'w io
     \<Rightarrow> (abort + json list) \<times> 'w io" where
  "fetch_loop L api_key video_ids [] all_items io = (Inr all_items, io)"
| "fetch_loop L api_key video_ids (i # is) all_items io =
     (let chunk = take BATCH_SIZE (drop i video_ids);
          url = request_url L api_key chunk;
          (resp, w) = urlopen L (world io) url;
          io = io\<lparr>world := w, requests := requests io @ [(url, resp)]\<rparr>
      in case response_items L resp of
           Inl (a, msg) \<Rightarrow> (Inl a, case msg of None \<Rightarrow> io | Some m \<Rightarrow> eprint m io)
         | Inr items \<Rightarrow> fetch_loop L api_key video_ids is (all_items @ items) io)"

definition fetch_videos ::
  "'w lib \<Rightarrow> string \<Rightarrow> string list \<Rightarrow> 'w io \<Rightarrow> (abort + json list) \<times> 'w io" where
  "fetch_videos L api_key video_ids io =
     fetch_loop L api_key video_ids (range_step (length video_ids) BATCH_SIZE) [] io"

section \<open>The entry point\<close>

text \<open>
  \<open>{item.get("id") for item in items}\<close>: every item must have \<open>.get\<close>, and a list or a
  dict cannot be a member of a set.
\<close>

fun found_ids :: "json list \<Rightarrow> py_error + json list" where
  "found_ids [] = Inr []"
| "found_ids (item # items) =
     (case dict_get item ''id'' JNull of
        Inl e \<Rightarrow> Inl e
      | Inr v \<Rightarrow>
          (case v of
             JArr xs \<Rightarrow> Inl TypeError
           | JObj kvs \<Rightarrow> Inl TypeError
           | _ \<Rightarrow> (case found_ids items of Inl e \<Rightarrow> Inl e | Inr vs \<Rightarrow> Inr (v # vs))))"

text \<open>
  \<open>main\<close>: the command line, the line that \<open>input\<close> would read (\<open>None\<close> at end of
  input) and the value of \<open>YOUTUBE_DATA_API_KEY\<close> (\<open>None\<close> when unset).
\<close>

definition main ::
  "'w lib \<Rightarrow> string list \<Rightarrow> string option \<Rightarrow> string option \<Rightarrow> 'w io
     \<Rightarrow> (abort + unit) \<times> 'w io" where
  "main L argv stdin_line env io =
     (case parse_args L argv of
        HelpExit text \<Rightarrow> (Inl (SysExit 0), io\<lparr>stdout := stdout io @ [Printed text]\<rparr>)
      | UsageError text \<Rightarrow> (Inl (SysExit 2), eprint text io)
      | Namespace args_video_ids args_format \<Rightarrow>
           (let (r, io) =
              (if args_video_ids = [] then
                 (let io = io\<lparr>stdout := stdout io @ [Prompt ''Enter video ID(s), comma- or space-separated: '']\<rparr>
                  in case stdin_line of
                       None \<Rightarrow> (Inl (SysExit 1), eprint ''yt-extract: No video IDs provided.'' io)
                     | Some l \<Rightarrow> (let line = strip l in (Inr (if line \<noteq> [] then [line] else []), io)))
               else (Inr args_video_ids, io))
            in case r of
              Inl a \<Rightarrow> (Inl a, io)
            | Inr video_ids \<Rightarrow>
                (let video_ids = normalize_ids video_ids
                 in if video_ids = [] then
                      (Inl (SysExit 1), eprint ''yt-extract: No video IDs provided.'' io)
                    else
                      (case get_api_key env io of
                         (Inl a, io) \<Rightarrow> (Inl a, io)
                       | (Inr api_key, io) \<Rightarrow>
                           (case fetch_videos L api_key video_ids io of
                              (Inl a, io) \<Rightarrow> (Inl a, io)
                            | (Inr items, io) \<Rightarrow>
                                (case found_ids items of
                                   Inl e \<Rightarrow> (Inl (Uncaught e), io)
                                 | Inr found \<Rightarrow>
                                     (let io = io\<lparr>stderr := stderr io @
                                                 map (\<lambda>vid. ''yt-extract: Not found: '' @ vid)
                                                   (filter (\<lambda>vid. JStr vid \<notin> set found) video_ids)\<rparr>
                                      in case items_to_rows (iso_date L) items None of
                                           Inl e \<Rightarrow> (Inl (Uncaught e), io)
                                         | Inr rows \<Rightarrow>
                                             if rows = [] then (Inl (SysExit 1), io)
                                             else
                                               (let tablefmt = (if args_format = Markdown then ''pipe'' else ''grid'');
                                                    rows = (if tablefmt = ''pipe''
                                                            then escape_pipes_for_markdown rows else rows)
                                                in (Inr (), io\<lparr>stdout := stdout io @ [Table tablefmt rows]\<rparr>)))))))))"

text \<open>
  The exit status of the process: 0 when \<open>main\<close> returns, the argument of \<open>sys.exit\<close>, and
  1 after an exception that nothing catches.
\<close>

fun exit_code :: "abort + unit \<Rightarrow> nat" where
  "exit_code (Inr u) = 0"
| "exit_code (Inl (SysExit n)) = n"
| "exit_code (Inl (Uncaught e)) = 1"

text \<open>A run starts with nothing sent and nothing printed.\<close>

definition start :: "'w \<Rightarrow> 'w io" where
  "start w = \<lparr>world = w, requests = [], stdout = [], stderr = []\<rparr>"

section \<open>Notions of the specification\<close>

text \<open>The chunks of the identifier list that the loop of \<open>fetch_videos\<close> cuts.\<close>

definition chunks :: "string list \<Rightarrow> string list list" where
  "chunks video_ids =
     map (\<lambda>i. take BATCH_SIZE (drop i video_ids)) (range_step (length video_ids) BATCH_SIZE)"


text \<open>
  The items array of a response: the response came with a body, the body is the JSON of an
  object, and the \<open>items\<close> of the object are an array (none at all, or null, counts as the
  empty array). \<open>None\<close> for any other response.
\<close>

definition items_array :: "'w lib \<Rightarrow> http_result \<Rightarrow> json list option" where
  "items_array L r =
     (case r of
        Body data \<Rightarrow>
          (case json_loads L data of
             Inr (JObj kvs) \<Rightarrow>
               (case map_of kvs ''items'' of
                  None \<Rightarrow> Some []
                | Some JNull \<Rightarrow> Some []
                | Some (JArr its) \<Rightarrow> Some its
                | Some v \<Rightarrow> None)
           | _ \<Rightarrow> None)
      | _ \<Rightarrow> None)"

text \<open>A response from which the loop of \<open>fetch_videos\<close> goes on, and what it appends.\<close>

definition good_response :: "'w lib \<Rightarrow> http_result \<Rightarrow> bool" where
  "good_response L r = (case response_items L r of Inl a \<Rightarrow> False | Inr items \<Rightarrow> True)"

definition items_of :: "'w lib \<Rightarrow> http_result \<Rightarrow> json list" where
  "items_of L r = (case response_items L r of Inl a \<Rightarrow> [] | Inr items \<Rightarrow> items)"

text \<open>The first occurrence of every element, in order: the keys of a dict filled in that order.\<close>

fun first_occurrences :: "'a list \<Rightarrow> 'a list" where
  "first_occurrences [] = []"
| "first_occurrences (x # xs) = x # filter (\<lambda>y. y \<noteq> x) (first_occurrences xs)"

text \<open>The labels of the column ids that the registry knows, in the order of the ids.\<close>

definition column_labels :: "(string \<times> string \<times> extractor) list \<Rightarrow> string list \<Rightarrow> string list" where
  "column_labels reg columns =
     concat (map (\<lambda>c. case map_of reg c of None \<Rightarrow> [] | Some (label, ex) \<Rightarrow> [label]) columns)"

text \<open>
  A duration of the form \<open>PT[nH][nM][nS]\<close>: each component is absent or a non-empty string
  of digits before its letter.
\<close>

fun component :: "string option \<Rightarrow> char \<Rightarrow> string" where
  "component None letter = []"
| "component (Some ds) letter = ds @ [letter]"

definition duration_form :: "string option \<Rightarrow> string option \<Rightarrow> string option \<Rightarrow> string" where
  "duration_form h mn s = ''PT'' @ component h (CHR ''H'') @ component mn (CHR ''M'') @ component s (CHR ''S'')"

fun digits :: "string option \<Rightarrow> bool" where
  "digits None = True"
| "digits (Some ds) = (ds \<noteq> [] \<and> list_all is_digit ds)"

text \<open>The number a component stands for (zero when it is absent), and a component short
  enough for the interpreter to convert.\<close>

fun component_value :: "string option \<Rightarrow> nat" where
  "component_value None = 0"
| "component_value (Some ds) = decimal_value ds"

fun short :: "string option \<Rightarrow> bool" where
  "short None = True"
| "short (Some ds) = (length ds \<le> 4300)"

text \<open>The clock \<open>H:MM:SS\<close>, or \<open>MM:SS\<close> when there are no hours.\<close>

definition clock :: "nat \<Rightarrow> nat \<Rightarrow> nat \<Rightarrow> string" where
  "clock h mn s = (if h \<noteq> 0 then str_nat h @ '':'' else []) @ fmt_02d mn @ '':'' @ fmt_02d s"

text \<open>A string that begins with the letters \<open>PT\<close>, in either case.\<close>

fun has_PT_prefix :: "string \<Rightarrow> bool" where
  "has_PT_prefix (p # t # r) = (p \<in> set ''Pp'' \<and> t \<in> set ''Tt'')"
| "has_PT_prefix _ = False"

text \<open>
  The items of the data model: a mapping whose \<open>snippet\<close>, \<open>contentDetails\<close> and
  \<open>statistics\<close> are each absent, null (or empty) or a mapping, and whose duration is absent,
  null (or empty) or a string of at most 4300 characters.
\<close>

fun is_obj :: "json \<Rightarrow> bool" where
  "is_obj (JObj kvs) = True"
| "is_obj _ = False"

fun is_str :: "json \<Rightarrow> bool" where
  "is_str (JStr s) = True"
| "is_str _ = False"

definition sub_ok :: "(string \<times> json) list \<Rightarrow> string \<Rightarrow> bool" where
  "sub_ok kvs name = (case map_of kvs name of None \<Rightarrow> True | Some v \<Rightarrow> \<not> truthy v \<or> is_obj v)"

fun duration_ok :: "json \<Rightarrow> bool" where
  "duration_ok (JStr s) = (length s \<le> 4300)"
| "duration_ok d = (\<not> truthy d)"

fun api_item :: "json \<Rightarrow> bool" where
  "api_item (JObj kvs) =
     (sub_ok kvs ''snippet'' \<and> sub_ok kvs ''statistics'' \<and> sub_ok kvs ''contentDetails'' \<and>
      (case map_of kvs ''contentDetails'' of
         Some (JObj cd) \<Rightarrow>
           (case map_of cd ''duration'' of None \<Rightarrow> True | Some d \<Rightarrow> duration_ok d)
       | _ \<Rightarrow> True))"
| "api_item _ = False"

text \<open>
  The field of a sub-mapping is missing: the sub-mapping is absent or null, or it is a
  mapping without the field.
\<close>

fun missing :: "json \<Rightarrow> string \<Rightarrow> string \<Rightarrow> bool" where
  "missing (JObj kvs) sub field =
     (case map_of kvs sub of
        None \<Rightarrow> True
      | Some JNull \<Rightarrow> True
      | Some (JObj fs) \<Rightarrow> map_of fs field = None
      | Some v \<Rightarrow> False)"
| "missing _ sub field = False"

text \<open>The tokens of one input string: the non-empty pieces between the separators.\<close>

definition tokens :: "string \<Rightarrow> string list" where
  "tokens s = filter (\<lambda>p. p \<noteq> []) (re_split s)"

text \<open>The field of a sub-mapping is present and null.\<close>

fun null_field :: "json \<Rightarrow> string \<Rightarrow> string \<Rightarrow> bool" where
  "null_field (JObj kvs) sub field =
     (case map_of kvs sub of
        Some (JObj fs) \<Rightarrow> map_of fs field = Some JNull
      | _ \<Rightarrow> False)"
| "null_field _ sub field = False"

text \<open>What a run prints before the table: the prompt, when no identifier was given as argument.\<close>

definition prompt_out :: "string list \<Rightarrow> out list" where
  "prompt_out args =
     (if args = [] then [Prompt ''Enter video ID(s), comma- or space-separated: ''] else [])"

text \<open>
  The identifiers of a run after normalization: from the arguments, or from the line read
  at the prompt; \<open>None\<close> when the input ends before a line is read.
\<close>

definition requested_ids :: "string list \<Rightarrow> string option \<Rightarrow> string list option" where
  "requested_ids args line =
     (if args \<noteq> [] then Some (normalize_ids args)
      else case line of
             None \<Rightarrow> None
           | Some l \<Rightarrow> Some (normalize_ids (if strip l \<noteq> [] then [strip l] else [])))"

text \<open>An API key that is missing or blank: unset, or made of whitespace only.\<close>

definition blank_key :: "string option \<Rightarrow> bool" where
  "blank_key env = (case env of None \<Rightarrow> True | Some v \<Rightarrow> list_all is_space v)"

text \<open>The API key that \<open>get_api_key\<close> reads from the environment.\<close>

definition api_key_of :: "string option \<Rightarrow> string" where
  "api_key_of env = strip (case env of None \<Rightarrow> [] | Some v \<Rightarrow> v)"

text \<open>The table a run renders from its rows, in the selected format.\<close>

definition rendered :: "format \<Rightarrow> row list \<Rightarrow> out" where
  "rendered fmt rows =
     Table (if fmt = Markdown then ''pipe'' else ''grid'')
           (if fmt = Markdown then escape_pipes_for_markdown rows else rows)"

text \<open>The lines printed for the requested identifiers that no item carries.\<close>

definition not_found :: "string list \<Rightarrow> json list \<Rightarrow> string list" where
  "not_found video_ids found =
     map (\<lambda>vid. ''yt-extract: Not found: '' @ vid) (filter (\<lambda>vid. JStr vid \<notin> set found) video_ids)"

text \<open>
  A mocked library, as in the end-to-end test of the specification. The first request is
  answered with one item, whose title holds a pipe character, every later request with
  another item; the state counts the requests. The parser stands for \<open>argparse\<close> on the
  command lines used below: \<open>-h\<close> or \<open>--help\<close> in front asks for help, \<open>--format\<close> in front
  takes one of its two choices, and any other command line is taken as a list of
  identifiers, as \<open>argparse\<close> takes it when none of them begins with a dash.
\<close>

definition mock_parse_args :: "string list \<Rightarrow> parsed" where
  "mock_parse_args argv =
     (case argv of
        [] \<Rightarrow> Namespace [] Markdown
      | a # rest \<Rightarrow>
          if a = ''-h'' \<or> a = ''--help'' then HelpExit ''usage: yt-extract [-h] [--format {grid,markdown}] [video_ids ...]''
          else if a = ''--format'' then
            (case rest of
               [] \<Rightarrow> UsageError ''yt-extract: error: argument --format: expected one argument''
             | f # ids \<Rightarrow>
                 if f = ''grid'' then Namespace ids Grid
                 else if f = ''markdown'' then Namespace ids Markdown
                 else UsageError ''yt-extract: error: argument --format: invalid choice'')
          else Namespace (a # rest) Markdown)"

definition mock_lib :: "nat lib" where
  "mock_lib =
     \<lparr>parse_args = mock_parse_args,
      urlencode = (\<lambda>params. join ''&'' (map (\<lambda>(k, v). k @ ''='' @ v) params)),
      urlopen = (\<lambda>w url. (Body (if w = 0 then ''ok'' else ''more''), Suc w)),
      json_loads = (\<lambda>data.
        if data = ''ok'' then
          Inr (JObj [(''items'',
                 JArr [JObj [(''id'', JStr ''X''), (''snippet'', JObj [(''title'', JStr ''a|b'')])]])])
        else if data = ''more'' then
          Inr (JObj [(''items'', JArr [JObj [(''id'', JStr ''Y'')]])])
        else Inl ''Expecting value''),
      iso_date = (\<lambda>s. None)\<rparr>"

section \<open>Properties\<close>

lemma str_nat_small: "n < 10 \<Longrightarrow> str_nat n = [digit_char n]"
  by (simp add: str_nat.simps)

text \<open>
  C5: the test vectors of the duration parser: \<open>PT55M5S\<close> gives \<open>55:05\<close>, \<open>PT1H2M3S\<close> gives
  \<open>1:02:03\<close>, \<open>PT5S\<close> gives \<open>00:05\<close>, the empty string gives the empty string, and
  \<open>garbage\<close> is returned unchanged.
\<close>

theorem parse_duration_vectors:
  "parse_duration (JStr ''PT55M5S'') = Inr (JStr ''55:05'') \<and>
   parse_duration (JStr ''PT1H2M3S'') = Inr (JStr ''1:02:03'') \<and>
   parse_duration (JStr ''PT5S'') = Inr (JStr ''00:05'') \<and>
   parse_duration (JStr '''') = Inr (JStr '''') \<and>
   parse_duration (JStr ''garbage'') = Inr (JStr ''garbage'')"
  by code_simp

subsection \<open>Decimal numbers\<close>

lemma digit_char_is_digit: "d < 10 \<Longrightarrow> is_digit (digit_char d)"
proof -
  assume "d < 10"
  then have "d \<in> {0,1,2,3,4,5,6,7,8,9}" by auto
  then show ?thesis by (auto simp: digit_char_def is_digit_def)
qed

lemma digit_val_digit_char: "d < 10 \<Longrightarrow> digit_val (digit_char d) = d"
proof -
  assume "d < 10"
  then have "d \<in> {0,1,2,3,4,5,6,7,8,9}" by auto
  then show ?thesis by (auto simp: digit_char_def)
qed

lemma digit_val_le: "is_digit c \<Longrightarrow> digit_val c \<le> 9"
  by (auto simp: is_digit_def)

lemma str_nat_digits: "list_all is_digit (str_nat n)"
proof (induction n rule: str_nat.induct)
  case (1 n)
  show ?case
  proof (cases "n < 10")
    case True
    then show ?thesis by (simp add: str_nat.simps [of n] digit_char_is_digit)
  next
    case False
    with 1 show ?thesis by (simp add: str_nat.simps [of n] digit_char_is_digit)
  qed
qed

lemma str_nat_nonempty: "str_nat n \<noteq> []"
  by (simp add: str_nat.simps [of n])

lemma decimal_value_snoc: "decimal_value (ds @ [c]) = 10 * decimal_value ds + digit_val c"
  by (simp add: decimal_value_def)

lemma decimal_value_str_nat: "decimal_value (str_nat n) = n"
proof (induction n rule: str_nat.induct)
  case (1 n)
  show ?case
  proof (cases "n < 10")
    case True
    then show ?thesis
      by (simp add: str_nat.simps [of n] decimal_value_def digit_val_digit_char del: digit_val.simps)
  next
    case False
    with 1 show ?thesis
      by (simp add: str_nat.simps [of n] decimal_value_snoc digit_val_digit_char del: digit_val.simps)
  qed
qed

lemma decimal_value_bound: "list_all is_digit ds \<Longrightarrow> decimal_value ds < 10 ^ length ds"
proof (induction ds rule: rev_induct)
  case Nil
  show ?case by (simp add: decimal_value_def)
next
  case (snoc c ds)
  then have "decimal_value ds < 10 ^ length ds" and "digit_val c \<le> 9"
    by (simp_all add: digit_val_le del: digit_val.simps)
  then have "10 * decimal_value ds + digit_val c < 10 * 10 ^ length ds" by linarith
  then show ?case by (simp add: decimal_value_snoc del: digit_val.simps)
qed

lemma length_str_nat_le: "n < 10 ^ k \<Longrightarrow> 0 < k \<Longrightarrow> length (str_nat n) \<le> k"
proof (induction n arbitrary: k rule: str_nat.induct)
  case (1 n)
  show ?case
  proof (cases "n < 10")
    case True
    with "1.prems" show ?thesis by (simp add: str_nat.simps [of n])
  next
    case False
    from "1.prems" obtain j where k: "k = Suc j" by (cases k) auto
    from False "1.prems" k have "0 < j" by (cases j) auto
    moreover from "1.prems" k have "n div 10 < 10 ^ j"
      by (simp add: less_mult_imp_div_less mult.commute)
    ultimately have "length (str_nat (n div 10)) \<le> j" using "1.IH" [OF False] by blast
    with False k show ?thesis by (simp add: str_nat.simps [of n])
  qed
qed

lemma length_str_nat_decimal:
  "ds \<noteq> [] \<Longrightarrow> list_all is_digit ds \<Longrightarrow> length (str_nat (decimal_value ds)) \<le> length ds"
  using decimal_value_bound [of ds] length_str_nat_le [of "decimal_value ds" "length ds"] by simp

lemma length_str_nat_ge2: "10 \<le> n \<Longrightarrow> 2 \<le> length (str_nat n)"
  using str_nat_nonempty [of "n div 10"]
  by (cases "str_nat (n div 10)") (simp_all add: str_nat.simps [of n])

lemma length_str_nat_2: "10 \<le> n \<Longrightarrow> n < 100 \<Longrightarrow> length (str_nat n) = 2"
  by (simp add: str_nat.simps [of n] str_nat.simps [of "n div 10"])

lemma fmt_02d_small: "n < 10 \<Longrightarrow> fmt_02d n = [CHR ''0'', digit_char n]"
  by (simp add: fmt_02d_def str_nat_small numeral_2_eq_2)

lemma fmt_02d_large: "10 \<le> n \<Longrightarrow> fmt_02d n = str_nat n"
  using length_str_nat_ge2 [of n] by (simp add: fmt_02d_def)

lemma length_fmt_02d: "2 \<le> length (fmt_02d n)"
  by (cases "n < 10") (simp_all add: fmt_02d_small fmt_02d_large length_str_nat_ge2)

lemma length_fmt_02d_lt100: "n < 100 \<Longrightarrow> length (fmt_02d n) = 2"
  by (cases "n < 10") (simp_all add: fmt_02d_small fmt_02d_large length_str_nat_2)

lemma fmt_02d_digits: "list_all is_digit (fmt_02d n)"
proof (cases "n < 10")
  case True
  have "is_digit (CHR ''0'')" by (simp add: is_digit_def)
  with True show ?thesis by (simp add: fmt_02d_small digit_char_is_digit)
next
  case False
  then show ?thesis by (simp add: fmt_02d_large str_nat_digits)
qed

lemma decimal_value_fmt_02d: "decimal_value (fmt_02d n) = n"
proof (cases "n < 10")
  case True
  have "digit_val (CHR ''0'') = 0" by simp
  with True show ?thesis
    by (simp add: fmt_02d_small decimal_value_def digit_val_digit_char del: digit_val.simps)
next
  case False
  then show ?thesis by (simp add: fmt_02d_large decimal_value_str_nat)
qed

text \<open>The conversions of a component that is short enough do not raise.\<close>

lemma int_or_0_short: "digits g \<Longrightarrow> short g \<Longrightarrow> int_or_0 g = Inr (component_value g)"
  by (cases g) (simp_all add: py_int_def int_max_str_digits_def)

lemma int_or_0_long: "digits g \<Longrightarrow> \<not> short g \<Longrightarrow> int_or_0 g = Inl ValueError"
  by (cases g) (simp_all add: py_int_def int_max_str_digits_def)

lemma length_str_component: "digits g \<Longrightarrow> short g \<Longrightarrow> length (str_nat (component_value g)) \<le> 4300"
proof (cases g)
  case None
  then show ?thesis by (simp add: str_nat.simps [of 0])
next
  case (Some ds)
  assume "digits g" "short g"
  with Some length_str_nat_decimal [of ds] show ?thesis by simp
qed

lemma py_str_component:
  "digits g \<Longrightarrow> short g \<Longrightarrow> py_str (component_value g) = Inr (str_nat (component_value g))"
  using length_str_component [of g] by (simp add: py_str_def int_max_str_digits_def)

lemma py_fmt_02d_component:
  "digits g \<Longrightarrow> short g \<Longrightarrow> py_fmt_02d (component_value g) = Inr (fmt_02d (component_value g))"
  using length_str_component [of g] by (simp add: py_fmt_02d_def int_max_str_digits_def)


subsection \<open>The duration pattern\<close>

lemma dropWhile_hd_id: "xs \<noteq> [] \<Longrightarrow> \<not> P (hd xs) \<Longrightarrow> dropWhile P xs = xs"
  by (cases xs) auto

lemma strip_id: "s \<noteq> [] \<Longrightarrow> \<not> is_space (hd s) \<Longrightarrow> \<not> is_space (last s) \<Longrightarrow> strip s = s"
  unfolding strip_def
  by (simp add: dropWhile_hd_id hd_rev)

lemma set_strip: "set (strip s) \<subseteq> set s"
proof -
  have "set (strip s) \<subseteq> set (dropWhile is_space s)"
    unfolding strip_def using set_dropWhileD [of _ is_space "rev (dropWhile is_space s)"] by auto
  also have "\<dots> \<subseteq> set s" using set_dropWhileD [of _ is_space s] by auto
  finally show ?thesis .
qed

lemma length_strip: "length (strip s) \<le> length s"
proof -
  have "length (strip s) \<le> length (dropWhile is_space s)"
    unfolding strip_def using length_dropWhile_le [of is_space "rev (dropWhile is_space s)"] by simp
  also have "\<dots> \<le> length s" by (rule length_dropWhile_le)
  finally show ?thesis .
qed

lemma not_digit_letters [simp]:
  "\<not> is_digit (CHR ''H'')" "\<not> is_digit (CHR ''M'')" "\<not> is_digit (CHR ''S'')"
  by (simp_all add: is_digit_def)

lemma not_space_letters [simp]:
  "\<not> is_space (CHR ''P'')" "\<not> is_space (CHR ''T'')"
  "\<not> is_space (CHR ''H'')" "\<not> is_space (CHR ''M'')" "\<not> is_space (CHR ''S'')"
  by (simp_all add: is_space_def)

lemma match_group_hit:
  "ds \<noteq> [] \<Longrightarrow> list_all is_digit ds \<Longrightarrow> \<not> is_digit c \<Longrightarrow> c \<in> set letters
     \<Longrightarrow> match_group letters (ds @ c # rest) = (Some ds, rest)"
  by (simp add: match_group_def Let_def list_all_iff takeWhile_tail dropWhile_append3)

lemma match_group_miss:
  "list_all is_digit ds \<Longrightarrow> \<not> is_digit c \<Longrightarrow> c \<notin> set letters
     \<Longrightarrow> match_group letters (ds @ c # rest) = (None, ds @ c # rest)"
  by (simp add: match_group_def Let_def list_all_iff takeWhile_tail dropWhile_append3)

lemma match_group_Nil: "match_group letters [] = (None, [])"
  by (simp add: match_group_def)

text \<open>What a group captures is a non-empty string of digits, no longer than the input.\<close>

lemma match_group_props:
  assumes "match_group letters s = (g, r)"
  shows "digits g \<and> (\<forall>ds. g = Some ds \<longrightarrow> length ds \<le> length s) \<and> length r \<le> length s"
proof (cases "takeWhile is_digit s \<noteq> [] \<and> dropWhile is_digit s \<noteq> []
              \<and> hd (dropWhile is_digit s) \<in> set letters")
  case True
  with assms have g: "g = Some (takeWhile is_digit s)" and r: "r = tl (dropWhile is_digit s)"
    by (simp_all add: match_group_def Let_def)
  have "list_all is_digit (takeWhile is_digit s)"
    using set_takeWhileD [of _ is_digit s] by (auto simp: list_all_iff)
  moreover have "length (takeWhile is_digit s) \<le> length s" by (rule length_takeWhile_le)
  moreover have "length (tl (dropWhile is_digit s)) \<le> length s"
    using length_dropWhile_le [of is_digit s] by simp
  ultimately show ?thesis using True g r by simp
next
  case False
  with assms have "g = None" "r = s" by (auto simp: match_group_def Let_def)
  then show ?thesis by simp
qed

lemma DURATION_RE_match_groups:
  assumes "DURATION_RE_match s = Some (h, mn, sec)"
  shows "digits h \<and> digits mn \<and> digits sec \<and>
         (length s \<le> 4300 \<longrightarrow> short h \<and> short mn \<and> short sec)"
proof -
  from assms obtain p t r where s: "s = p # t # r"
    by (cases s rule: DURATION_RE_match.cases) auto
  obtain r1 where h: "match_group ''Hh'' r = (h, r1)"
    using assms s by (auto simp: Let_def split: if_splits prod.splits)
  obtain r2 where m: "match_group ''Mm'' r1 = (mn, r2)"
    using assms s h by (auto simp: Let_def split: if_splits prod.splits)
  obtain r3 where c: "match_group ''Ss'' r2 = (sec, r3)"
    using assms s h m by (auto simp: Let_def split: if_splits prod.splits)
  note ph = match_group_props [OF h] and pm = match_group_props [OF m] and pc = match_group_props [OF c]
  have sh: "length s \<le> 4300 \<Longrightarrow> short h" using ph s by (cases h) auto
  have sm: "length s \<le> 4300 \<Longrightarrow> short mn" using ph pm s by (cases mn) auto
  have sc: "length s \<le> 4300 \<Longrightarrow> short sec" using ph pm pc s by (cases sec) auto
  from ph pm pc sh sm sc show ?thesis by blast
qed

text \<open>What \<open>parse_duration\<close> makes of the captured groups.\<close>

lemma parse_duration_matched:
  assumes "s \<noteq> []" "DURATION_RE_match (strip s) = Some (h, mn, sec)"
    and "digits h" "digits mn" "digits sec"
  shows "parse_duration (JStr s) =
           (if short h \<and> short mn \<and> short sec
            then Inr (JStr (clock (component_value h) (component_value mn) (component_value sec)))
            else Inl ValueError)"
proof (cases "short h")
  case False
  with assms show ?thesis by (simp add: int_or_0_long)
next
  case h: True
  show ?thesis
  proof (cases "short mn")
    case False
    with assms h show ?thesis by (simp add: int_or_0_long int_or_0_short)
  next
    case mn: True
    show ?thesis
    proof (cases "short sec")
      case False
      with assms h mn show ?thesis by (simp add: int_or_0_long int_or_0_short)
    next
      case True
      with assms h mn show ?thesis
        by (simp add: int_or_0_short py_str_component py_fmt_02d_component clock_def)
    qed
  qed
qed

text \<open>On a string of the form \<open>PT[nH][nM][nS]\<close> the groups capture the three components.\<close>

lemma DURATION_RE_match_form:
  assumes "digits h" "digits mn" "digits s"
  shows "DURATION_RE_match (duration_form h mn s) = Some (h, mn, s)"
proof -
  let ?S = "component s (CHR ''S'')"
  let ?M = "component mn (CHR ''M'')"
  have S: "match_group ''Ss'' ?S = (s, [])"
    using assms(3) match_group_hit [of _ "CHR ''S''" "''Ss''" "[]"]
    by (cases s) (simp_all add: match_group_Nil)
  have M0: "match_group ''Mm'' ?S = (None, ?S)"
    using assms(3) match_group_miss [of _ "CHR ''S''" "''Mm''" "[]"]
    by (cases s) (simp_all add: match_group_Nil)
  have M: "match_group ''Mm'' (?M @ ?S) = (mn, ?S)"
    using assms(2) M0 match_group_hit [of _ "CHR ''M''" "''Mm''" ?S]
    by (cases mn) simp_all
  have H00: "match_group ''Hh'' ?S = (None, ?S)"
    using assms(3) match_group_miss [of _ "CHR ''S''" "''Hh''" "[]"]
    by (cases s) (simp_all add: match_group_Nil)
  have H0: "match_group ''Hh'' (?M @ ?S) = (None, ?M @ ?S)"
    using assms(2) H00 match_group_miss [of _ "CHR ''M''" "''Hh''" ?S]
    by (cases mn) simp_all
  have H: "match_group ''Hh'' (component h (CHR ''H'') @ ?M @ ?S) = (h, ?M @ ?S)"
    using assms(1) H0 match_group_hit [of _ "CHR ''H''" "''Hh''" "?M @ ?S"]
    by (cases h) simp_all
  show ?thesis
    by (simp add: duration_form_def H M S)
qed

lemma strip_duration_form:
  assumes "digits h" "digits mn" "digits s"
  shows "strip (duration_form h mn s) = duration_form h mn s"
proof (rule strip_id)
  show "duration_form h mn s \<noteq> []" by (simp add: duration_form_def)
  show "\<not> is_space (hd (duration_form h mn s))" by (simp add: duration_form_def)
  show "\<not> is_space (last (duration_form h mn s))"
    by (cases h; cases mn; cases s) (simp_all add: duration_form_def)
qed

lemma parse_duration_form:
  assumes "digits h" "digits mn" "digits s"
  shows "parse_duration (JStr (duration_form h mn s)) =
           (if short h \<and> short mn \<and> short s
            then Inr (JStr (clock (component_value h) (component_value mn) (component_value s)))
            else Inl ValueError)"
proof -
  have ne: "duration_form h mn s \<noteq> []" by (simp add: duration_form_def)
  have m: "DURATION_RE_match (strip (duration_form h mn s)) = Some (h, mn, s)"
    by (simp only: strip_duration_form [OF assms] DURATION_RE_match_form [OF assms])
  show ?thesis by (rule parse_duration_matched [OF ne m assms])
qed

lemma DURATION_RE_match_None: "DURATION_RE_match s = None \<longleftrightarrow> \<not> has_PT_prefix s"
  by (cases s rule: has_PT_prefix.cases) (auto simp: Let_def split: prod.splits)

lemma parse_duration_passthrough:
  "s \<noteq> [] \<Longrightarrow> \<not> has_PT_prefix (strip s) \<Longrightarrow> parse_duration (JStr s) = Inr (JStr s)"
  using DURATION_RE_match_None [of "strip s"] by simp

text \<open>Once the prefix matches, the call raises or returns a clock: digits and colons only.\<close>

lemma clock_chars: "list_all (\<lambda>c. is_digit c \<or> c = CHR '':'') (clock h mn s)"
proof -
  have d: "\<And>n. list_all (\<lambda>c. is_digit c \<or> c = CHR '':'') (fmt_02d n)"
          "\<And>n. list_all (\<lambda>c. is_digit c \<or> c = CHR '':'') (str_nat n)"
    using fmt_02d_digits str_nat_digits by (auto simp: list_all_iff)
  show ?thesis by (simp add: clock_def d)
qed

lemma parse_duration_result_chars:
  assumes "has_PT_prefix (strip s)"
  shows "parse_duration (JStr s) = Inl ValueError \<or>
         (\<exists>t. parse_duration (JStr s) = Inr (JStr t) \<and> list_all (\<lambda>c. is_digit c \<or> c = CHR '':'') t)"
proof -
  from assms have ne: "s \<noteq> []" by (auto simp: strip_def)
  from assms obtain h mn sec where m: "DURATION_RE_match (strip s) = Some (h, mn, sec)"
    using DURATION_RE_match_None [of "strip s"] by (cases "DURATION_RE_match (strip s)") auto
  from DURATION_RE_match_groups [OF m] have d: "digits h" "digits mn" "digits sec" by simp_all
  show ?thesis
    unfolding parse_duration_matched [OF ne m d] using clock_chars by simp
qed

lemma parse_duration_changes:
  assumes "has_PT_prefix (strip s)"
  shows "parse_duration (JStr s) \<noteq> Inr (JStr s)"
proof
  assume eq: "parse_duration (JStr s) = Inr (JStr s)"
  from parse_duration_result_chars [OF assms] eq
  have all: "list_all (\<lambda>c. is_digit c \<or> c = CHR '':'') s" by auto
  from assms obtain p t r where st: "strip s = p # t # r" and p: "p \<in> set ''Pp''"
    by (cases "strip s" rule: has_PT_prefix.cases) auto
  from st set_strip [of s] have "p \<in> set s" by auto
  with all have "is_digit p \<or> p = CHR '':''" by (auto simp: list_all_iff)
  with p show False by (auto simp: is_digit_def)
qed

text \<open>
  C2, as the claim states it, fails: with a zero hours component the result has no hours
  field. \<open>PT0H2M3S\<close> is of the form \<open>PT[nH][nM][nS]\<close> with the hours present, and the
  result is \<open>02:03\<close>, not \<open>0:02:03\<close>.
\<close>

theorem parse_duration_zero_hours:
  "duration_form (Some ''0'') (Some ''2'') (Some ''3'') = ''PT0H2M3S'' \<and>
   parse_duration (JStr ''PT0H2M3S'') = Inr (JStr ''02:03'') \<and>
   parse_duration (JStr ''PT0H2M3S'') \<noteq> Inr (JStr ''0:02:03'')"
  by code_simp

text \<open>
  C2, amended: for every duration string of the form \<open>PT[nH][nM][nS]\<close> whose components
  have at most 4300 digits each, \<open>parse_duration\<close> returns \<open>H:MM:SS\<close> when the hours
  component is present and not zero, and \<open>MM:SS\<close> when it is absent or zero; a missing
  component counts as zero. \<open>H\<close> is the decimal number of hours. Minutes and seconds are
  padded with zeros to two digits: they are not reduced modulo 60, so a value of 100 or
  more keeps all its digits. With a component of more than 4300 digits the conversion to
  \<open>int\<close> raises \<open>ValueError\<close>.
\<close>

theorem parse_duration_clock_form:
  assumes "digits h" "digits mn" "digits s"
  shows "(short h \<and> short mn \<and> short s \<longrightarrow>
            parse_duration (JStr (duration_form h mn s)) =
              Inr (JStr ((if component_value h \<noteq> 0 then str_nat (component_value h) @ '':'' else [])
                         @ fmt_02d (component_value mn) @ '':'' @ fmt_02d (component_value s))))
         \<and> (\<not> (short h \<and> short mn \<and> short s) \<longrightarrow>
              parse_duration (JStr (duration_form h mn s)) = Inl ValueError)
         \<and> list_all is_digit (str_nat n) \<and> decimal_value (str_nat n) = n
         \<and> list_all is_digit (fmt_02d n) \<and> decimal_value (fmt_02d n) = n
         \<and> 2 \<le> length (fmt_02d n) \<and> (n < 100 \<longrightarrow> length (fmt_02d n) = 2)"
proof -
  note f = parse_duration_form [OF assms]
  have ok: "short h \<and> short mn \<and> short s \<longrightarrow>
            parse_duration (JStr (duration_form h mn s)) =
              Inr (JStr ((if component_value h \<noteq> 0 then str_nat (component_value h) @ '':'' else [])
                         @ fmt_02d (component_value mn) @ '':'' @ fmt_02d (component_value s)))"
    unfolding f by (simp add: clock_def)
  have long: "\<not> (short h \<and> short mn \<and> short s) \<longrightarrow>
              parse_duration (JStr (duration_form h mn s)) = Inl ValueError"
    unfolding f by simp
  have lt: "n < 100 \<longrightarrow> length (fmt_02d n) = 2" by (simp add: length_fmt_02d_lt100)
  from ok long str_nat_digits [of n] decimal_value_str_nat [of n] fmt_02d_digits [of n]
    decimal_value_fmt_02d [of n] length_fmt_02d [of n] lt
  show ?thesis by (intro conjI)
qed

theorem parse_duration_clock_form_witness:
  "digits (Some ''1'') \<and> digits (Some ''2'') \<and> digits None \<and>
   short (Some ''1'') \<and> short (Some ''2'') \<and> short None \<and>
   duration_form (Some ''1'') (Some ''2'') None = ''PT1H2M'' \<and>
   parse_duration (JStr ''PT1H2M'') = Inr (JStr ''1:02:00'') \<and>
   (7::nat) < 100 \<and> length (fmt_02d 7) = 2"
proof -
  have d: "digits (Some ''1'')" "digits (Some ''2'')" "digits None"
    by code_simp+
  have sh: "short (Some ''1'') \<and> short (Some ''2'') \<and> short None"
    by code_simp
  have f: "duration_form (Some ''1'') (Some ''2'') None = ''PT1H2M''"
    by code_simp
  have r: "(if component_value (Some ''1'') \<noteq> 0 then str_nat (component_value (Some ''1'')) @ '':'' else [])
             @ fmt_02d (component_value (Some ''2'')) @ '':'' @ fmt_02d (component_value None) = ''1:02:00''"
    by code_simp
  note T = parse_duration_clock_form [OF d, of 7]
  from T [THEN conjunct1, THEN mp, OF sh]
  have p: "parse_duration (JStr ''PT1H2M'') = Inr (JStr ''1:02:00'')"
    unfolding f r .
  have lt: "(7::nat) < 100" by simp
  from T have "(7::nat) < 100 \<longrightarrow> length (fmt_02d 7) = 2"
    by (elim conjE)
  with lt have l: "length (fmt_02d 7) = 2" by (rule rev_mp)
  from sh have s1: "short (Some ''1'')" and s2: "short (Some ''2'')" and s3: "short None"
    by blast+
  from d s1 s2 s3 f p lt l show ?thesis by (intro conjI)
qed

text \<open>
  C3, as the claim states it, fails: \<open>DURATION_RE.match\<close> accepts every string that begins
  with \<open>PT\<close>, since all three groups are optional and the end is not anchored. \<open>PTxyz\<close>
  has no component and is not returned unchanged: the result is \<open>00:00\<close>.
\<close>

theorem parse_duration_PTxyz:
  "parse_duration (JStr ''PTxyz'') = Inr (JStr ''00:00'') \<and>
   parse_duration (JStr ''PTxyz'') \<noteq> Inr (JStr ''PTxyz'')"
  by code_simp

text \<open>
  C3, amended: a non-empty input string is returned unchanged exactly when, with the
  surrounding whitespace stripped, it does not begin with the letters \<open>PT\<close> (in either
  case). A string that begins with them is converted, whatever follows (or the conversion
  raises, when a component has more than 4300 digits).
\<close>

theorem parse_duration_unchanged:
  assumes "s \<noteq> []"
  shows "parse_duration (JStr s) = Inr (JStr s) \<longleftrightarrow> \<not> has_PT_prefix (strip s)"
  using parse_duration_passthrough [OF assms] parse_duration_changes [of s] by blast

theorem parse_duration_unchanged_witness:
  "''garbage'' \<noteq> [] \<and> \<not> has_PT_prefix (strip ''garbage'') \<and>
   parse_duration (JStr ''garbage'') = Inr (JStr ''garbage'')"
proof -
  have ne: "''garbage'' \<noteq> []" by simp
  have np: "\<not> has_PT_prefix (strip ''garbage'')" by code_simp
  from parse_duration_unchanged [OF ne] np show ?thesis by simp
qed

subsection \<open>The identifier normalizer\<close>

lemma re_split_last:
  "dropWhile (\<lambda>c. \<not> is_sep c) s = [] \<Longrightarrow> re_split s = [takeWhile (\<lambda>c. \<not> is_sep c) s]"
  by (simp add: re_split.simps [of s] Let_def)

lemma re_split_more:
  "dropWhile (\<lambda>c. \<not> is_sep c) s \<noteq> [] \<Longrightarrow>
     re_split s = takeWhile (\<lambda>c. \<not> is_sep c) s
                    # re_split (dropWhile is_sep (dropWhile (\<lambda>c. \<not> is_sep c) s))"
  by (auto simp add: re_split.simps [of s] Let_def)

lemma re_split_sep_free: "p \<in> set (re_split s) \<Longrightarrow> c \<in> set p \<Longrightarrow> \<not> is_sep c"
proof (induction s arbitrary: p rule: re_split.induct)
  case (1 s)
  let ?rest = "dropWhile (\<lambda>c. \<not> is_sep c) s"
  have head: "p = takeWhile (\<lambda>c. \<not> is_sep c) s \<Longrightarrow> \<not> is_sep c"
    using "1.prems"(2) set_takeWhileD [of c "\<lambda>c. \<not> is_sep c" s] by simp
  show ?case
  proof (cases "?rest = []")
    case True
    from "1.prems"(1) have "p = takeWhile (\<lambda>c. \<not> is_sep c) s"
      unfolding re_split_last [OF True] by simp
    then show ?thesis by (rule head)
  next
    case False
    from "1.prems"(1) have "p = takeWhile (\<lambda>c. \<not> is_sep c) s
        \<or> p \<in> set (re_split (dropWhile is_sep ?rest))"
      unfolding re_split_more [OF False] by simp
    then show ?thesis
    proof
      assume "p = takeWhile (\<lambda>c. \<not> is_sep c) s"
      then show ?thesis by (rule head)
    next
      assume "p \<in> set (re_split (dropWhile is_sep ?rest))"
      with "1.IH" [OF refl refl False] "1.prems"(2) show ?thesis by blast
    qed
  qed
qed

lemma filter_dropWhile_neg: "filter (\<lambda>c. \<not> P c) (dropWhile P xs) = filter (\<lambda>c. \<not> P c) xs"
  by (induction xs) auto

lemma filter_split_takeWhile: "filter Q xs = takeWhile Q xs @ filter Q (dropWhile Q xs)"
  by (induction xs) auto

lemma concat_re_split: "concat (re_split s) = filter (\<lambda>c. \<not> is_sep c) s"
proof (induction s rule: re_split.induct)
  case (1 s)
  let ?rest = "dropWhile (\<lambda>c. \<not> is_sep c) s"
  note split = filter_split_takeWhile [of "\<lambda>c. \<not> is_sep c" s]
  show ?case
  proof (cases "?rest = []")
    case True
    have "concat (re_split s) = takeWhile (\<lambda>c. \<not> is_sep c) s"
      unfolding re_split_last [OF True] by simp
    also have "\<dots> = filter (\<lambda>c. \<not> is_sep c) s"
      using split unfolding True by simp
    finally show ?thesis .
  next
    case False
    have "concat (re_split s) = takeWhile (\<lambda>c. \<not> is_sep c) s
            @ concat (re_split (dropWhile is_sep ?rest))"
      unfolding re_split_more [OF False] by simp
    also have "concat (re_split (dropWhile is_sep ?rest)) = filter (\<lambda>c. \<not> is_sep c) ?rest"
      using "1.IH" [OF refl refl False] by (simp only: filter_dropWhile_neg)
    finally show ?thesis using split by simp
  qed
qed

lemma strip_no_space: "\<forall>c\<in>set p. \<not> is_space c \<Longrightarrow> strip p = p"
proof -
  assume a: "\<forall>c\<in>set p. \<not> is_space c"
  then have "dropWhile is_space p = p" by (cases p) auto
  moreover from a have "dropWhile is_space (rev p) = rev p" by (cases "rev p") (auto dest: arg_cong [where f = set])
  ultimately show ?thesis by (simp add: strip_def)
qed

lemma strip_re_split: "map strip (re_split s) = re_split s"
proof -
  have "\<forall>p\<in>set (re_split s). strip p = p"
    using re_split_sep_free [of _ s] by (auto intro!: strip_no_space simp: is_sep_def)
  then show ?thesis by (simp add: map_idI)
qed

lemma normalize_ids_tokens_eq: "normalize_ids raw = concat (map tokens raw)"
proof -
  have "tokens = (\<lambda>s. filter (\<lambda>part. part \<noteq> []) (map strip (re_split s)))"
    by (rule ext) (simp add: tokens_def strip_re_split)
  then show ?thesis by (simp add: normalize_ids_def)
qed

lemma re_split_Nil: "re_split [] = [[]]"
  by (simp add: re_split.simps [of "[]"])

lemma re_split_sep_Cons: "is_sep c \<Longrightarrow> re_split (c # s) = [] # re_split (dropWhile is_sep s)"
  by (simp add: re_split.simps [of "c # s"])

lemma tokens_drop_seps: "tokens (dropWhile is_sep s) = tokens s"
proof (cases "s \<noteq> [] \<and> is_sep (hd s)")
  case True
  then obtain c cs where s: "s = c # cs" and c: "is_sep c" by (cases s) auto
  then show ?thesis by (simp add: tokens_def re_split_sep_Cons)
next
  case False
  then have "dropWhile is_sep s = s" by (cases s) auto
  then show ?thesis by simp
qed

lemma tokens_all_sep: "list_all is_sep pre \<Longrightarrow> tokens pre = []"
proof -
  assume "list_all is_sep pre"
  then have "dropWhile is_sep pre = []" by (simp add: list_all_iff)
  with tokens_drop_seps [of pre] show ?thesis by (simp add: tokens_def re_split_Nil)
qed

lemma tokens_token:
  assumes "t \<noteq> []" "list_all (\<lambda>c. \<not> is_sep c) t" "rest = [] \<or> is_sep (hd rest)"
  shows "tokens (t @ rest) = t # tokens rest"
proof -
  have tw: "takeWhile (\<lambda>c. \<not> is_sep c) (t @ rest) = t"
    using assms(2,3) by (cases rest) (auto simp: list_all_iff takeWhile_tail)
  have dw: "dropWhile (\<lambda>c. \<not> is_sep c) (t @ rest) = rest"
    using assms(2,3) by (cases rest) (auto simp: list_all_iff dropWhile_append3)
  show ?thesis
  proof (cases "rest = []")
    case True
    with tw dw have "re_split t = [t]"
      using re_split_last [of t] by simp
    with True assms(1) show ?thesis
      by (simp add: tokens_def re_split_Nil)
  next
    case False
    with tw dw have "re_split (t @ rest) = t # re_split (dropWhile is_sep rest)"
      using re_split_more [of "t @ rest"] by simp
    with assms(1) have "tokens (t @ rest) = t # tokens (dropWhile is_sep rest)"
      by (simp add: tokens_def)
    then show ?thesis by (simp add: tokens_drop_seps)
  qed
qed

lemma tokens_lead:
  assumes "list_all is_sep pre" "t \<noteq> []" "list_all (\<lambda>c. \<not> is_sep c) t" "rest = [] \<or> is_sep (hd rest)"
  shows "tokens (pre @ t @ rest) = t # tokens rest"
proof -
  from assms(2,3) have "\<not> is_sep (hd t)" by (cases t) auto
  with assms(1,2) have "dropWhile is_sep (pre @ t @ rest) = t @ rest"
    by (cases t) (auto simp: list_all_iff dropWhile_append3)
  with tokens_drop_seps [of "pre @ t @ rest"] tokens_token [OF assms(2-4)]
  show ?thesis by simp
qed


lemma concat_filter_nonempty: "concat (filter (\<lambda>p. p \<noteq> []) xs) = concat xs"
  by (induction xs) auto

lemma concat_tokens: "concat (tokens s) = filter (\<lambda>c. \<not> is_sep c) s"
  by (simp add: tokens_def concat_filter_nonempty concat_re_split)

lemma concat_normalize_ids: "concat (normalize_ids raw) = filter (\<lambda>c. \<not> is_sep c) (concat raw)"
  unfolding normalize_ids_tokens_eq by (induction raw) (simp_all add: concat_tokens)

lemma normalize_ids_token_shape:
  "tok \<in> set (normalize_ids raw) \<Longrightarrow> tok \<noteq> [] \<and> list_all (\<lambda>c. \<not> is_sep c) tok"
  unfolding normalize_ids_tokens_eq
  using re_split_sep_free by (auto simp: tokens_def list_all_iff)

lemma normalize_ids_append: "normalize_ids (raw @ raw') = normalize_ids raw @ normalize_ids raw'"
  by (simp add: normalize_ids_def)

text \<open>
  C7: \<open>normalize_ids\<close> returns the non-empty tokens of its input strings, in order and with
  duplicates kept: the empty list gives the empty list, the inputs are handled one after
  the other, every token is non-empty and free of commas and whitespace, the tokens put
  together are the input without its commas and whitespace, a string of separators only
  has no token, and a maximal run of other characters is one token.
\<close>

theorem normalize_ids_spec:
  "normalize_ids [] = [] \<and>
   normalize_ids [''a, b'', '' c  d''] = [''a'', ''b'', ''c'', ''d''] \<and>
   normalize_ids (raw @ raw') = normalize_ids raw @ normalize_ids raw' \<and>
   (\<forall>tok \<in> set (normalize_ids raw). tok \<noteq> [] \<and> list_all (\<lambda>c. \<not> is_sep c) tok) \<and>
   concat (normalize_ids raw) = filter (\<lambda>c. \<not> is_sep c) (concat raw) \<and>
   (list_all is_sep pre \<longrightarrow> normalize_ids [pre] = []) \<and>
   (list_all is_sep pre \<and> t \<noteq> [] \<and> list_all (\<lambda>c. \<not> is_sep c) t \<and> (rest = [] \<or> is_sep (hd rest))
      \<longrightarrow> normalize_ids [pre @ t @ rest] = t # normalize_ids [rest])"
proof -
  have v0: "normalize_ids [] = []" by (simp add: normalize_ids_def)
  have v1: "normalize_ids [''a, b'', '' c  d''] = [''a'', ''b'', ''c'', ''d'']" by code_simp
  have sep: "list_all is_sep pre \<longrightarrow> normalize_ids [pre] = []"
    by (simp add: normalize_ids_tokens_eq tokens_all_sep)
  have tok: "list_all is_sep pre \<and> t \<noteq> [] \<and> list_all (\<lambda>c. \<not> is_sep c) t \<and> (rest = [] \<or> is_sep (hd rest))
      \<longrightarrow> normalize_ids [pre @ t @ rest] = t # normalize_ids [rest]"
    using tokens_lead [of pre t rest] by (simp add: normalize_ids_tokens_eq)
  show ?thesis
    using v0 v1 sep tok normalize_ids_append [of raw raw'] concat_normalize_ids [of raw]
      normalize_ids_token_shape [of _ raw]
    by blast
qed

theorem normalize_ids_spec_witness:
  "list_all is_sep '' '' \<and> ''c'' \<noteq> [] \<and> list_all (\<lambda>c. \<not> is_sep c) ''c'' \<and> is_sep (hd ''  d'') \<and>
   normalize_ids ['' c  d''] = ''c'' # normalize_ids [''  d''] \<and>
   ''c'' \<in> set (normalize_ids ['' c  d''])"
proof -
  have h: "list_all is_sep '' ''" "''c'' \<noteq> []" "list_all (\<lambda>c. \<not> is_sep c) ''c''" "is_sep (hd ''  d'')"
    by code_simp+
  from normalize_ids_spec [of "['' c  d'']" "[]" "'' ''" "''c''" "''  d''"] h
  have "normalize_ids ['' c  d''] = ''c'' # normalize_ids [''  d'']" by simp
  with h show ?thesis by simp
qed

subsection \<open>The column extractors\<close>

lemma sub_mapping_obj:
  "sub_ok kvs name \<Longrightarrow> \<exists>fs. sub_mapping (JObj kvs) name = Inr (JObj fs)"
  by (cases "map_of kvs name"; cases "the (map_of kvs name)")
     (auto simp: sub_ok_def sub_mapping_def py_or_def)

lemma parse_duration_total:
  assumes "duration_ok d"
  shows "\<exists>v. parse_duration d = Inr v"
proof (cases "truthy d")
  case False
  then show ?thesis by simp
next
  case True
  with assms obtain s where d: "d = JStr s" and ne: "s \<noteq> []" and len: "length s \<le> 4300"
    by (cases d) auto
  show ?thesis
  proof (cases "DURATION_RE_match (strip s)")
    case None
    with d ne show ?thesis by simp
  next
    case (Some g)
    obtain h mn sec where g: "g = (h, mn, sec)" by (cases g)
    from Some g have m: "DURATION_RE_match (strip s) = Some (h, mn, sec)" by simp
    from len length_strip [of s] have "length (strip s) \<le> 4300" by simp
    with DURATION_RE_match_groups [OF m]
    have dg: "digits h" "digits mn" "digits sec" and sh: "short h \<and> short mn \<and> short sec"
      by simp_all
    from parse_duration_matched [OF ne m dg] sh d show ?thesis by simp
  qed
qed

lemma col_id_total: "api_item item \<Longrightarrow> \<exists>v. col_id item = Inr v"
  by (cases item) (simp_all add: col_id_def)

lemma col_title_total: "api_item item \<Longrightarrow> \<exists>v. col_title item = Inr v"
proof (cases item)
  case (JObj kvs)
  assume "api_item item"
  with JObj have "sub_ok kvs ''snippet''" by simp
  from sub_mapping_obj [OF this] JObj show ?thesis by (auto simp: col_title_def)
qed simp_all

lemma col_channel_title_total: "api_item item \<Longrightarrow> \<exists>v. col_channel_title item = Inr v"
proof (cases item)
  case (JObj kvs)
  assume "api_item item"
  with JObj have "sub_ok kvs ''snippet''" by simp
  from sub_mapping_obj [OF this] JObj show ?thesis by (auto simp: col_channel_title_def)
qed simp_all

lemma col_publication_date_total: "api_item item \<Longrightarrow> \<exists>v. col_publication_date d item = Inr v"
proof (cases item)
  case (JObj kvs)
  assume "api_item item"
  with JObj have "sub_ok kvs ''snippet''" by simp
  from sub_mapping_obj [OF this] obtain fs where "sub_mapping (JObj kvs) ''snippet'' = Inr (JObj fs)" ..
  with JObj show ?thesis
    by (auto simp: col_publication_date_def split: json.splits option.splits)
qed simp_all

lemma col_view_count_total: "api_item item \<Longrightarrow> \<exists>v. col_view_count item = Inr v"
proof (cases item)
  case (JObj kvs)
  assume "api_item item"
  with JObj have "sub_ok kvs ''statistics''" by simp
  from sub_mapping_obj [OF this] JObj show ?thesis by (auto simp: col_view_count_def)
qed simp_all

lemma col_like_count_total: "api_item item \<Longrightarrow> \<exists>v. col_like_count item = Inr v"
proof (cases item)
  case (JObj kvs)
  assume "api_item item"
  with JObj have "sub_ok kvs ''statistics''" by simp
  from sub_mapping_obj [OF this] JObj show ?thesis by (auto simp: col_like_count_def)
qed simp_all

lemma col_comment_count_total: "api_item item \<Longrightarrow> \<exists>v. col_comment_count item = Inr v"
proof (cases item)
  case (JObj kvs)
  assume "api_item item"
  with JObj have "sub_ok kvs ''statistics''" by simp
  from sub_mapping_obj [OF this] JObj show ?thesis by (auto simp: col_comment_count_def)
qed simp_all

lemma col_duration_total: "api_item item \<Longrightarrow> \<exists>v. col_duration item = Inr v"
proof (cases item)
  case (JObj kvs)
  assume a: "api_item item"
  show ?thesis
  proof (cases "map_of kvs ''contentDetails''")
    case None
    with JObj show ?thesis by (simp add: col_duration_def sub_mapping_def py_or_def)
  next
    case (Some v)
    from a JObj Some have ok: "\<not> truthy v \<or> is_obj v" by (simp add: sub_ok_def)
    show ?thesis
    proof (cases "truthy v")
      case False
      with JObj Some show ?thesis by (simp add: col_duration_def sub_mapping_def py_or_def)
    next
      case True
      with ok obtain cd where v: "v = JObj cd" by (cases v) auto
      from a JObj Some v have "case map_of cd ''duration'' of None \<Rightarrow> True | Some d \<Rightarrow> duration_ok d"
        by simp
      then have "duration_ok (case map_of cd ''duration'' of None \<Rightarrow> JStr [] | Some d \<Rightarrow> d)"
        by (cases "map_of cd ''duration''") simp_all
      then have "\<exists>r. parse_duration (case map_of cd ''duration'' of None \<Rightarrow> JStr [] | Some d \<Rightarrow> d) = Inr r"
        by (rule parse_duration_total)
      with JObj Some v True show ?thesis
        by (simp add: col_duration_def sub_mapping_def py_or_def del: parse_duration.simps)
    qed
  qed
qed simp_all

lemma extractor_returns:
  assumes "api_item item" "(cid, label, ex) \<in> set (COLUMN_EXTRACTORS d)"
  shows "\<exists>v. ex item = Inr v"
  using assms(2) col_id_total [OF assms(1)] col_title_total [OF assms(1)]
    col_publication_date_total [OF assms(1), of d] col_channel_title_total [OF assms(1)]
    col_view_count_total [OF assms(1)] col_like_count_total [OF assms(1)]
    col_comment_count_total [OF assms(1)] col_duration_total [OF assms(1)]
  unfolding COLUMN_EXTRACTORS_def by auto

lemma missing_get:
  "missing item sub field \<Longrightarrow> \<exists>sn. sub_mapping item sub = Inr sn \<and> dict_get sn field dflt = Inr dflt"
  by (cases item; cases "map_of (case item of JObj kvs \<Rightarrow> kvs) sub";
      cases "the (map_of (case item of JObj kvs \<Rightarrow> kvs) sub)")
     (auto simp: sub_mapping_def py_or_def)

lemma null_field_get:
  "null_field item sub field \<Longrightarrow> \<exists>sn. sub_mapping item sub = Inr sn \<and> dict_get sn field dflt = Inr JNull"
  by (cases item; cases "map_of (case item of JObj kvs \<Rightarrow> kvs) sub";
      cases "the (map_of (case item of JObj kvs \<Rightarrow> kvs) sub)")
     (auto simp: sub_mapping_def py_or_def)

lemma missing_default:
  "missing item sub field \<Longrightarrow>
     (case sub_mapping item sub of Inl e \<Rightarrow> Inl e | Inr sn \<Rightarrow> dict_get sn field dflt) = Inr dflt"
  using missing_get [of item sub field dflt] by auto

lemma missing_counts:
  "missing item ''statistics'' ''viewCount'' \<Longrightarrow> col_view_count item = Inr (JStr ''0'')"
  "missing item ''statistics'' ''likeCount'' \<Longrightarrow> col_like_count item = Inr (JStr ''0'')"
  "missing item ''statistics'' ''commentCount'' \<Longrightarrow> col_comment_count item = Inr (JStr ''0'')"
  by (simp_all add: col_view_count_def col_like_count_def col_comment_count_def missing_default)

lemma missing_titles:
  "missing item ''snippet'' ''title'' \<Longrightarrow> col_title item = Inr (JStr [])"
  "missing item ''snippet'' ''channelTitle'' \<Longrightarrow> col_channel_title item = Inr (JStr [])"
  by (simp_all add: col_title_def col_channel_title_def missing_default)

lemma missing_date:
  assumes "missing item ''snippet'' ''publishedAt''"
  shows "col_publication_date d item = Inr (JStr [])"
proof -
  from missing_get [OF assms, of "JStr []"] obtain sn
    where "sub_mapping item ''snippet'' = Inr sn" "dict_get sn ''publishedAt'' (JStr []) = Inr (JStr [])"
    by blast
  then show ?thesis by (simp add: col_publication_date_def)
qed

lemma missing_duration:
  assumes "missing item ''contentDetails'' ''duration''"
  shows "col_duration item = Inr (JStr [])"
proof -
  from missing_get [OF assms, of "JStr []"] obtain cd
    where "sub_mapping item ''contentDetails'' = Inr cd" "dict_get cd ''duration'' (JStr []) = Inr (JStr [])"
    by blast
  then show ?thesis by (simp add: col_duration_def)
qed

lemma null_date:
  assumes "null_field item ''snippet'' ''publishedAt''"
  shows "col_publication_date d item = Inr (JStr [])"
proof -
  from null_field_get [OF assms, of "JStr []"] obtain sn
    where "sub_mapping item ''snippet'' = Inr sn" "dict_get sn ''publishedAt'' (JStr []) = Inr JNull"
    by blast
  then show ?thesis by (simp add: col_publication_date_def)
qed

lemma null_duration:
  assumes "null_field item ''contentDetails'' ''duration''"
  shows "col_duration item = Inr (JStr [])"
proof -
  from null_field_get [OF assms, of "JStr []"] obtain cd
    where "sub_mapping item ''contentDetails'' = Inr cd" "dict_get cd ''duration'' (JStr []) = Inr JNull"
    by blast
  then show ?thesis by (simp add: col_duration_def)
qed

lemma null_returned:
  "null_field item ''snippet'' ''title'' \<Longrightarrow> col_title item = Inr JNull"
  "null_field item ''snippet'' ''channelTitle'' \<Longrightarrow> col_channel_title item = Inr JNull"
  "null_field item ''statistics'' ''viewCount'' \<Longrightarrow> col_view_count item = Inr JNull"
  "null_field item ''statistics'' ''likeCount'' \<Longrightarrow> col_like_count item = Inr JNull"
  "null_field item ''statistics'' ''commentCount'' \<Longrightarrow> col_comment_count item = Inr JNull"
proof -
  have n: "\<And>sub field dflt. null_field item sub field \<Longrightarrow>
     (case sub_mapping item sub of Inl e \<Rightarrow> Inl e | Inr sn \<Rightarrow> dict_get sn field dflt) = Inr JNull"
    using null_field_get [of item] by fastforce
  show "null_field item ''snippet'' ''title'' \<Longrightarrow> col_title item = Inr JNull"
    "null_field item ''snippet'' ''channelTitle'' \<Longrightarrow> col_channel_title item = Inr JNull"
    "null_field item ''statistics'' ''viewCount'' \<Longrightarrow> col_view_count item = Inr JNull"
    "null_field item ''statistics'' ''likeCount'' \<Longrightarrow> col_like_count item = Inr JNull"
    "null_field item ''statistics'' ''commentCount'' \<Longrightarrow> col_comment_count item = Inr JNull"
    by (simp_all add: col_title_def col_channel_title_def col_view_count_def col_like_count_def
          col_comment_count_def n)
qed


text \<open>
  C6, as the claim states it, fails for a field that is present and null: \<open>.get(k, default)\<close>
  falls back to the default only when the key is absent.
\<close>

theorem extractors_null_field:
  "api_item (JObj [(''statistics'', JObj [(''viewCount'', JNull)])]) \<and>
   col_view_count (JObj [(''statistics'', JObj [(''viewCount'', JNull)])]) = Inr JNull \<and>
   col_view_count (JObj [(''statistics'', JObj [(''viewCount'', JNull)])]) \<noteq> Inr (JStr ''0'') \<and>
   col_title (JObj [(''snippet'', JObj [(''title'', JNull)])]) = Inr JNull \<and>
   col_title (JObj [(''snippet'', JObj [(''title'', JNull)])]) \<noteq> Inr (JStr [])"
  by code_simp

text \<open>
  C6, amended: on every item of the data model (a mapping whose \<open>snippet\<close>,
  \<open>contentDetails\<close> and \<open>statistics\<close> are each absent, null or a mapping, and whose duration
  is absent, null or a string of at most 4300 characters, the longest that is sure to
  hold no number beyond the limit of the conversion to \<open>int\<close>) every column extractor
  returns a value and none raises.
  Where the \<open>statistics\<close> sub-mapping is absent or null, or lacks the count field, the
  view, like and comment count extractors return \<open>"0"\<close>; where the \<open>snippet\<close> or
  \<open>contentDetails\<close> sub-mapping is absent or null, or lacks the field, the title, channel
  title, date and duration extractors return the empty string. A field that is present
  and null gives the empty string for the date and the duration, and is returned as it
  is, null, by the title, channel title and count extractors.
\<close>

theorem extractors_total_defaults:
  "(api_item item \<longrightarrow> (\<forall>(cid, label, ex) \<in> set (COLUMN_EXTRACTORS d). \<exists>v. ex item = Inr v)) \<and>
   (missing item ''statistics'' ''viewCount'' \<longrightarrow> col_view_count item = Inr (JStr ''0'')) \<and>
   (missing item ''statistics'' ''likeCount'' \<longrightarrow> col_like_count item = Inr (JStr ''0'')) \<and>
   (missing item ''statistics'' ''commentCount'' \<longrightarrow> col_comment_count item = Inr (JStr ''0'')) \<and>
   (missing item ''snippet'' ''title'' \<longrightarrow> col_title item = Inr (JStr [])) \<and>
   (missing item ''snippet'' ''channelTitle'' \<longrightarrow> col_channel_title item = Inr (JStr [])) \<and>
   (missing item ''snippet'' ''publishedAt'' \<or> null_field item ''snippet'' ''publishedAt''
      \<longrightarrow> col_publication_date d item = Inr (JStr [])) \<and>
   (missing item ''contentDetails'' ''duration'' \<or> null_field item ''contentDetails'' ''duration''
      \<longrightarrow> col_duration item = Inr (JStr [])) \<and>
   (null_field item ''snippet'' ''title'' \<longrightarrow> col_title item = Inr JNull) \<and>
   (null_field item ''snippet'' ''channelTitle'' \<longrightarrow> col_channel_title item = Inr JNull) \<and>
   (null_field item ''statistics'' ''viewCount'' \<longrightarrow> col_view_count item = Inr JNull) \<and>
   (null_field item ''statistics'' ''likeCount'' \<longrightarrow> col_like_count item = Inr JNull) \<and>
   (null_field item ''statistics'' ''commentCount'' \<longrightarrow> col_comment_count item = Inr JNull)"
proof -
  have total: "api_item item \<longrightarrow> (\<forall>(cid, label, ex) \<in> set (COLUMN_EXTRACTORS d). \<exists>v. ex item = Inr v)"
    using extractor_returns [of item _ _ _ d] by blast
  have date: "missing item ''snippet'' ''publishedAt'' \<or> null_field item ''snippet'' ''publishedAt''
      \<longrightarrow> col_publication_date d item = Inr (JStr [])"
    using missing_date [of item d] null_date [of item d] by blast
  have duration: "missing item ''contentDetails'' ''duration'' \<or> null_field item ''contentDetails'' ''duration''
      \<longrightarrow> col_duration item = Inr (JStr [])"
    using missing_duration [of item] null_duration [of item] by blast
  show ?thesis
    by (intro conjI total date duration impI missing_counts missing_titles null_returned)
qed

theorem extractors_total_defaults_witness:
  "api_item (JObj [(''id'', JStr ''X''), (''statistics'', JNull)]) \<and>
   missing (JObj [(''id'', JStr ''X''), (''statistics'', JNull)]) ''statistics'' ''viewCount'' \<and>
   col_view_count (JObj [(''id'', JStr ''X''), (''statistics'', JNull)]) = Inr (JStr ''0'') \<and>
   missing (JObj [(''id'', JStr ''X''), (''statistics'', JNull)]) ''snippet'' ''title'' \<and>
   col_title (JObj [(''id'', JStr ''X''), (''statistics'', JNull)]) = Inr (JStr []) \<and>
   (\<exists>v. col_duration (JObj [(''id'', JStr ''X''), (''statistics'', JNull)]) = Inr v)"
proof -
  let ?item = "JObj [(''id'', JStr ''X''), (''statistics'', JNull)]"
  note T = extractors_total_defaults [of ?item "\<lambda>s. None"]
  have a: "api_item ?item" by code_simp
  have m1: "missing ?item ''statistics'' ''viewCount''" by code_simp
  have m2: "missing ?item ''snippet'' ''title''" by code_simp
  have r: "(''duration'', ''duration'', col_duration) \<in> set (COLUMN_EXTRACTORS (\<lambda>s. None))"
    by (simp add: COLUMN_EXTRACTORS_def)
  from T a have "\<forall>(cid, label, ex) \<in> set (COLUMN_EXTRACTORS (\<lambda>s. None)). \<exists>v. ex ?item = Inr v"
    by (elim conjE) (erule mp)
  from bspec [OF this r] have d: "\<exists>v. col_duration ?item = Inr v" by simp
  from T m1 have v: "col_view_count ?item = Inr (JStr ''0'')" by (elim conjE) (erule mp)
  from T m2 have t: "col_title ?item = Inr (JStr [])" by (elim conjE) (erule mp)
  from a m1 v m2 t d show ?thesis by (intro conjI)
qed

subsection \<open>Rows\<close>

lemma keys_dict_set:
  "map fst (dict_set row k v) = (if k \<in> fst ` set row then map fst row else map fst row @ [k])"
  by (induction row) (force simp: image_iff)+

lemma keys_build_row:
  "build_row reg item cols row = Inr r \<Longrightarrow>
     map fst r = map fst row @ filter (\<lambda>l. l \<notin> fst ` set row) (first_occurrences (column_labels reg cols))"
proof (induction cols arbitrary: row)
  case Nil
  then show ?case by (simp add: column_labels_def)
next
  case (Cons c cols)
  show ?case
  proof (cases "map_of reg c")
    case None
    with Cons.prems have "build_row reg item cols row = Inr r" by simp
    from Cons.IH [OF this] None show ?thesis by (simp add: column_labels_def)
  next
    case (Some le)
    obtain l ex where le: "le = (l, ex)" by (cases le)
    from Cons.prems Some le obtain v where v: "ex item = Inr v"
      and b: "build_row reg item cols (dict_set row l v) = Inr r"
      by (auto split: sum.splits)
    have labels: "column_labels reg (c # cols) = l # column_labels reg cols"
      using Some le by (simp add: column_labels_def)
    let ?fo = "first_occurrences (column_labels reg cols)"
    from Cons.IH [OF b]
    have r: "map fst r = map fst (dict_set row l v)
               @ filter (\<lambda>x. x \<notin> fst ` set (dict_set row l v)) ?fo" .
    have ks: "fst ` set (dict_set row l v) = insert l (fst ` set row)"
      using keys_dict_set [of row l v, THEN arg_cong, of set] by auto
    show ?thesis
    proof (cases "l \<in> fst ` set row")
      case True
      then have "filter (\<lambda>x. x \<notin> fst ` set row) (filter (\<lambda>y. y \<noteq> l) ?fo)
                   = filter (\<lambda>x. x \<notin> fst ` set row) ?fo"
        by (auto intro: filter_cong)
      with True r ks show ?thesis
        by (simp add: labels keys_dict_set insert_absorb)
    next
      case False
      have "filter (\<lambda>x. x \<notin> insert l (fst ` set row)) ?fo
              = filter (\<lambda>x. x \<notin> fst ` set row) (filter (\<lambda>y. y \<noteq> l) ?fo)"
        by (auto intro: filter_cong)
      with False r ks show ?thesis
        by (simp add: labels keys_dict_set)
    qed
  qed
qed

lemma keys_build_rows:
  "build_rows reg cols items = Inr rows \<Longrightarrow>
     length rows = length items \<and>
     (\<forall>r \<in> set rows. map fst r = first_occurrences (column_labels reg cols))"
proof (induction items arbitrary: rows)
  case Nil
  then show ?case by simp
next
  case (Cons item items)
  from Cons.prems obtain row rows' where row: "build_row reg item cols [] = Inr row"
    and rows': "build_rows reg cols items = Inr rows'" and rows: "rows = row # rows'"
    by (auto split: sum.splits)
  from keys_build_row [OF row] have "map fst row = first_occurrences (column_labels reg cols)"
    by simp
  with Cons.IH [OF rows'] rows show ?case by simp
qed

lemma default_labels:
  "first_occurrences (column_labels (COLUMN_EXTRACTORS d) DEFAULT_TABLE_COLUMNS) =
     [''id'', ''title'', ''publication date'', ''channel title'',
      ''view count'', ''like count'', ''comment count'', ''duration'']"
  by (simp add: column_labels_def COLUMN_EXTRACTORS_def DEFAULT_TABLE_COLUMNS_def)

lemma build_row_total:
  assumes "api_item item"
  shows "\<exists>r. build_row (COLUMN_EXTRACTORS d) item cols row = Inr r"
proof (induction cols arbitrary: row)
  case Nil
  show ?case by simp
next
  case (Cons c cols)
  show ?case
  proof (cases "map_of (COLUMN_EXTRACTORS d) c")
    case None
    with Cons.IH show ?thesis by simp
  next
    case (Some le)
    obtain l ex where le: "le = (l, ex)" by (cases le)
    from Some le have "(c, l, ex) \<in> set (COLUMN_EXTRACTORS d)" by (auto dest: map_of_SomeD)
    from extractor_returns [OF assms this] obtain v where "ex item = Inr v" ..
    with Some le Cons.IH [of "dict_set row l v"] show ?thesis by simp
  qed
qed

lemma build_rows_total:
  "\<forall>item \<in> set items. api_item item \<Longrightarrow> \<exists>rows. build_rows (COLUMN_EXTRACTORS d) cols items = Inr rows"
proof (induction items)
  case Nil
  show ?case by simp
next
  case (Cons item items)
  then obtain rows where "build_rows (COLUMN_EXTRACTORS d) cols items = Inr rows" by auto
  moreover from Cons.prems build_row_total [of item d cols "[]"]
  obtain r where "build_row (COLUMN_EXTRACTORS d) item cols [] = Inr r" by auto
  ultimately show ?case by simp
qed


text \<open>
  C1, as the claim states it, fails: the inner loop of \<open>items_to_rows\<close> runs over the
  caller's list, so the labels of a row stand in the caller's order. Selecting
  \<open>["title", "id"]\<close> gives rows labelled \<open>title\<close>, then \<open>id\<close>.
\<close>

theorem items_to_rows_caller_order:
  "items_to_rows (\<lambda>s. None) [JObj []] (Some [''title'', ''id''])
     = Inr [[(''title'', JStr []), (''id'', JStr [])]] \<and>
   items_to_rows (\<lambda>s. None) [JObj []] (Some [''title'', ''id''])
     \<noteq> Inr [[(''id'', JStr []), (''title'', JStr [])]]"
  by code_simp

text \<open>
  C1, amended: for every list of items and every non-empty caller-supplied list of column
  keys, \<open>items_to_rows\<close> returns one row per item, and the labels of each row are those of
  the keys the registry knows, in the order in which the caller listed them (a key listed
  twice counts where it first stands; unknown keys are skipped). Without a selection the
  labels stand in the registry's order.
\<close>

theorem items_to_rows_label_order:
  "(columns \<noteq> [] \<and> items_to_rows d items (Some columns) = Inr rows \<longrightarrow>
      length rows = length items \<and>
      (\<forall>r \<in> set rows. map fst r = first_occurrences (column_labels (COLUMN_EXTRACTORS d) columns))) \<and>
   (items_to_rows d items None = Inr rows \<longrightarrow>
      length rows = length items \<and>
      (\<forall>r \<in> set rows. map fst r = map (\<lambda>(cid, label, ex). label) (COLUMN_EXTRACTORS d)))"
proof -
  have reg: "map (\<lambda>(cid, label, ex). label) (COLUMN_EXTRACTORS d) =
               first_occurrences (column_labels (COLUMN_EXTRACTORS d) DEFAULT_TABLE_COLUMNS)"
    unfolding default_labels by (simp add: COLUMN_EXTRACTORS_def)
  have some: "columns \<noteq> [] \<and> items_to_rows d items (Some columns) = Inr rows \<longrightarrow>
      length rows = length items \<and>
      (\<forall>r \<in> set rows. map fst r = first_occurrences (column_labels (COLUMN_EXTRACTORS d) columns))"
    using keys_build_rows [of "COLUMN_EXTRACTORS d" columns items rows]
    by (simp add: items_to_rows_def)
  have none: "items_to_rows d items None = Inr rows \<longrightarrow>
      length rows = length items \<and>
      (\<forall>r \<in> set rows. map fst r = map (\<lambda>(cid, label, ex). label) (COLUMN_EXTRACTORS d))"
    unfolding reg
    using keys_build_rows [of "COLUMN_EXTRACTORS d" DEFAULT_TABLE_COLUMNS items rows]
    by (simp add: items_to_rows_def)
  from some none show ?thesis by (rule conjI)
qed

theorem items_to_rows_label_order_witness:
  "[''title'', ''id''] \<noteq> [] \<and>
   items_to_rows (\<lambda>s. None) [JObj []] (Some [''title'', ''id''])
     = Inr [[(''title'', JStr []), (''id'', JStr [])]] \<and>
   first_occurrences (column_labels (COLUMN_EXTRACTORS (\<lambda>s. None)) [''title'', ''id''])
     = [''title'', ''id'']"
proof -
  have ne: "[''title'', ''id''] \<noteq> []" by simp
  have e: "items_to_rows (\<lambda>s. None) [JObj []] (Some [''title'', ''id''])
             = Inr [[(''title'', JStr []), (''id'', JStr [])]]"
    by code_simp
  from items_to_rows_label_order
         [of "[''title'', ''id'']" "\<lambda>s. None" "[JObj []]" "[[(''title'', JStr []), (''id'', JStr [])]]"]
  have "[''title'', ''id''] \<noteq> [] \<and> items_to_rows (\<lambda>s. None) [JObj []] (Some [''title'', ''id''])
             = Inr [[(''title'', JStr []), (''id'', JStr [])]] \<longrightarrow>
        (\<forall>r \<in> set [[(''title'', JStr []), (''id'', JStr [])]].
           map fst r = first_occurrences (column_labels (COLUMN_EXTRACTORS (\<lambda>s. None)) [''title'', ''id'']))"
    by blast
  with ne e have "first_occurrences (column_labels (COLUMN_EXTRACTORS (\<lambda>s. None)) [''title'', ''id''])
                    = map fst [(''title'', JStr []), (''id'', JStr [])]"
    by simp
  with ne e show ?thesis by simp
qed

text \<open>
  C10: an explicitly empty column list is replaced by the default columns, as no
  selection is: the two calls return the same, every returned row carries the eight
  default labels, and on items of the data model (with durations of at most 4300
  characters) the call does return rows, one per item.
\<close>

theorem items_to_rows_empty_columns:
  "items_to_rows d items (Some []) = items_to_rows d items None \<and>
   (items_to_rows d items (Some []) = Inr rows \<longrightarrow>
      length rows = length items \<and>
      (\<forall>r \<in> set rows. map fst r =
         [''id'', ''title'', ''publication date'', ''channel title'',
          ''view count'', ''like count'', ''comment count'', ''duration''])) \<and>
   ((\<forall>item \<in> set items. api_item item) \<longrightarrow> (\<exists>rs. items_to_rows d items (Some []) = Inr rs))"
proof -
  have eq: "items_to_rows d items (Some []) = items_to_rows d items None"
    by (simp add: items_to_rows_def)
  have labels: "items_to_rows d items (Some []) = Inr rows \<longrightarrow>
      length rows = length items \<and>
      (\<forall>r \<in> set rows. map fst r =
         [''id'', ''title'', ''publication date'', ''channel title'',
          ''view count'', ''like count'', ''comment count'', ''duration''])"
    using keys_build_rows [of "COLUMN_EXTRACTORS d" DEFAULT_TABLE_COLUMNS items rows]
    unfolding default_labels by (simp add: items_to_rows_def)
  have total: "(\<forall>item \<in> set items. api_item item) \<longrightarrow> (\<exists>rs. items_to_rows d items (Some []) = Inr rs)"
    using build_rows_total [of items d DEFAULT_TABLE_COLUMNS] by (simp add: items_to_rows_def)
  from eq labels total show ?thesis by (intro conjI)
qed

theorem items_to_rows_empty_columns_witness:
  "api_item (JObj [(''id'', JStr ''X'')]) \<and>
   items_to_rows (\<lambda>s. None) [JObj [(''id'', JStr ''X'')]] (Some []) =
     Inr [[(''id'', JStr ''X''), (''title'', JStr []), (''publication date'', JStr []),
           (''channel title'', JStr []), (''view count'', JStr ''0''), (''like count'', JStr ''0''),
           (''comment count'', JStr ''0''), (''duration'', JStr [])]] \<and>
   items_to_rows (\<lambda>s. None) [JObj [(''id'', JStr ''X'')]] None =
     items_to_rows (\<lambda>s. None) [JObj [(''id'', JStr ''X'')]] (Some []) \<and>
   length [[(''id'', JStr ''X''), (''title'', JStr []), (''publication date'', JStr []),
           (''channel title'', JStr []), (''view count'', JStr ''0''), (''like count'', JStr ''0''),
           (''comment count'', JStr ''0''), (''duration'', JStr [])]]
     = length [JObj [(''id'', JStr ''X'')]]"
proof -
  let ?items = "[JObj [(''id'', JStr ''X'')]]"
  let ?rows = "[[(''id'', JStr ''X''), (''title'', JStr []), (''publication date'', JStr []),
           (''channel title'', JStr []), (''view count'', JStr ''0''), (''like count'', JStr ''0''),
           (''comment count'', JStr ''0''), (''duration'', JStr [])]]"
  note T = items_to_rows_empty_columns [of "\<lambda>s. None" ?items ?rows]
  have a: "api_item (JObj [(''id'', JStr ''X'')])" by code_simp
  have e: "items_to_rows (\<lambda>s. None) ?items (Some []) = Inr ?rows" by code_simp
  from T have eq: "items_to_rows (\<lambda>s. None) ?items None = items_to_rows (\<lambda>s. None) ?items (Some [])"
    by (rule conjunct1 [THEN sym])
  from T have "items_to_rows (\<lambda>s. None) ?items (Some []) = Inr ?rows \<longrightarrow>
      length ?rows = length ?items \<and>
      (\<forall>r \<in> set ?rows. map fst r =
         [''id'', ''title'', ''publication date'', ''channel title'',
          ''view count'', ''like count'', ''comment count'', ''duration''])"
    by (rule conjunct2 [THEN conjunct1])
  from this e have "length ?rows = length ?items \<and>
      (\<forall>r \<in> set ?rows. map fst r =
         [''id'', ''title'', ''publication date'', ''channel title'',
          ''view count'', ''like count'', ''comment count'', ''duration''])"
    by (rule mp)
  then have l: "length ?rows = length ?items" by (rule conjunct1)
  from a e eq l show ?thesis by (intro conjI)
qed

subsection \<open>Batches\<close>

lemma str_replace_char:
  "str_replace s [c] new = concat (map (\<lambda>x. if x = c then new else [x]) s)"
  by (induction s) auto



lemma fetch_loop_result:
  "fetch_loop L key ids js acc io = (r, io') \<Longrightarrow>
     stdout io' = stdout io \<and>
     (\<exists>new. requests io' = requests io @ new \<and>
        (case r of
           Inr items \<Rightarrow> (\<forall>x \<in> set new. good_response L (snd x)) \<and>
                        items = acc @ concat (map (\<lambda>x. items_of L (snd x)) new)
         | Inl a \<Rightarrow> exit_code (Inl a) = 1 \<and> new \<noteq> [] \<and> \<not> good_response L (snd (last new))))"
proof (induction js arbitrary: acc io)
  case Nil
  then show ?case by auto
next
  case (Cons j js)
  let ?url = "request_url L key (take BATCH_SIZE (drop j ids))"
  let ?resp = "fst (urlopen L (world io) ?url)"
  let ?w = "snd (urlopen L (world io) ?url)"
  let ?io = "io\<lparr>world := ?w, requests := requests io @ [(?url, ?resp)]\<rparr>"
  show ?case
  proof (cases "response_items L ?resp")
    case (Inl am)
    obtain a msg where am: "am = (a, msg)" by (cases am)
    from Inl am have bad: "\<not> good_response L ?resp" by (simp add: good_response_def)
    from Inl am have code: "exit_code (Inl a) = 1"
      by (auto simp: response_items_def split: http_result.splits sum.splits)
    from Cons.prems Inl am have r: "r = Inl a"
      and io': "io' = (case msg of None \<Rightarrow> ?io | Some m \<Rightarrow> eprint m ?io)"
      by (simp_all add: Let_def split_beta)
    from io' have "stdout io' = stdout io" "requests io' = requests io @ [(?url, ?resp)]"
      by (simp_all add: eprint_def split: option.splits)
    with r bad code show ?thesis by auto
  next
    case (Inr its)
    then have g: "good_response L ?resp" and i: "items_of L ?resp = its"
      by (simp_all add: good_response_def items_of_def)
    from Cons.prems Inr have "fetch_loop L key ids js (acc @ its) ?io = (r, io')"
      by (simp add: Let_def split_beta)
    from Cons.IH [OF this] obtain new where so: "stdout io' = stdout io"
      and rq: "requests io' = requests io @ (?url, ?resp) # new"
      and c: "case r of
           Inr items \<Rightarrow> (\<forall>x \<in> set new. good_response L (snd x)) \<and>
                        items = (acc @ its) @ concat (map (\<lambda>x. items_of L (snd x)) new)
         | Inl a \<Rightarrow> exit_code (Inl a) = 1 \<and> new \<noteq> [] \<and> \<not> good_response L (snd (last new))"
      by auto
    from c g i have "case r of
           Inr items \<Rightarrow> (\<forall>x \<in> set ((?url, ?resp) # new). good_response L (snd x)) \<and>
                        items = acc @ concat (map (\<lambda>x. items_of L (snd x)) ((?url, ?resp) # new))
         | Inl a \<Rightarrow> exit_code (Inl a) = 1 \<and> (?url, ?resp) # new \<noteq> []
                     \<and> \<not> good_response L (snd (last ((?url, ?resp) # new)))"
      by (cases r) auto
    with so rq show ?thesis by blast
  qed
qed









lemma length_chunks: "length (chunks ids) = (length ids + BATCH_SIZE - 1) div BATCH_SIZE"
  by (simp add: chunks_def range_step_def)






lemma fetch_videos_result:
  "fetch_videos L key ids io = (r, io') \<Longrightarrow>
     stdout io' = stdout io \<and>
     (\<exists>new. requests io' = requests io @ new \<and>
        (case r of
           Inr items \<Rightarrow> (\<forall>x \<in> set new. good_response L (snd x)) \<and>
                        items = concat (map (\<lambda>x. items_of L (snd x)) new)
         | Inl a \<Rightarrow> exit_code (Inl a) = 1 \<and> new \<noteq> [] \<and> \<not> good_response L (snd (last new))))"
  using fetch_loop_result [of L key ids "range_step (length ids) BATCH_SIZE" "[]" io r io']
  unfolding fetch_videos_def by (cases r) auto


lemma items_array_response:
  "items_array L r = Some its \<Longrightarrow> response_items L r = Inr its"
  by (auto simp: items_array_def response_items_def py_or_def
      split: http_result.splits sum.splits json.splits option.splits)

lemma items_array_good:
  assumes "items_array L r \<noteq> None"
  shows "good_response L r \<and> items_of L r = the (items_array L r)"
proof -
  from assms obtain its where "items_array L r = Some its" by auto
  with items_array_response [OF this] show ?thesis
    by (simp add: good_response_def items_of_def)
qed





subsection \<open>The run\<close>

lemma main_help:
  "parse_args L argv = HelpExit text \<Longrightarrow>
     main L argv line env (start w) = (Inl (SysExit 0), (start w)\<lparr>stdout := [Printed text]\<rparr>)"
  by (simp add: main_def start_def)

lemma main_usage:
  "parse_args L argv = UsageError text \<Longrightarrow>
     main L argv line env (start w) = (Inl (SysExit 2), eprint text (start w))"
  by (simp add: main_def)

lemma main_no_ids:
  assumes p: "parse_args L argv = Namespace args fmt"
    and "requested_ids args line = None"
  shows "main L argv line env (start w) =
           (Inl (SysExit 1),
            eprint ''yt-extract: No video IDs provided.'' ((start w)\<lparr>stdout := prompt_out args\<rparr>))"
proof -
  from assms(2) have a: "args = []" and l: "line = None"
    by (auto simp: requested_ids_def split: if_splits option.splits)
  show ?thesis
    by (simp add: main_def p a l Let_def prompt_out_def start_def)
qed

lemma main_ids:
  assumes p: "parse_args L argv = Namespace args fmt"
    and rq: "requested_ids args line = Some ids"
  shows "main L argv line env (start w) =
    (let io1 = (start w)\<lparr>stdout := prompt_out args\<rparr> in
     if ids = [] then (Inl (SysExit 1), eprint ''yt-extract: No video IDs provided.'' io1)
     else if api_key_of env = [] then
       (Inl (SysExit 1), eprint ''yt-extract: Set YOUTUBE_DATA_API_KEY in your environment.'' io1)
     else
       (case fetch_videos L (api_key_of env) ids io1 of
          (Inl a, io2) \<Rightarrow> (Inl a, io2)
        | (Inr items, io2) \<Rightarrow>
            (case found_ids items of
               Inl e \<Rightarrow> (Inl (Uncaught e), io2)
             | Inr found \<Rightarrow>
                 (let io3 = io2\<lparr>stderr := stderr io2 @ not_found ids found\<rparr>
                  in case items_to_rows (iso_date L) items None of
                       Inl e \<Rightarrow> (Inl (Uncaught e), io3)
                     | Inr rows \<Rightarrow>
                         if rows = [] then (Inl (SysExit 1), io3)
                         else (Inr (), io3\<lparr>stdout := stdout io3 @ [rendered fmt rows]\<rparr>)))))"
proof (cases "args = []")
  case True
  with rq obtain l where l: "line = Some l"
    and ids: "ids = normalize_ids (if strip l \<noteq> [] then [strip l] else [])"
    by (auto simp: requested_ids_def split: option.splits)
  have t: "(if fmt = Markdown then ''pipe'' else ''grid'') = ''pipe'' \<longleftrightarrow> fmt = Markdown"
    by simp
  show ?thesis
    unfolding main_def
    by (simp add: p True l ids [symmetric] Let_def prompt_out_def start_def get_api_key_def
          api_key_of_def rendered_def not_found_def t
        split: prod.splits sum.splits)
next
  case False
  with rq have ids: "ids = normalize_ids args"
    by (auto simp: requested_ids_def)
  have t: "(if fmt = Markdown then ''pipe'' else ''grid'') = ''pipe'' \<longleftrightarrow> fmt = Markdown"
    by simp
  show ?thesis
    unfolding main_def
    by (simp add: p False ids [symmetric] Let_def prompt_out_def start_def get_api_key_def
          api_key_of_def rendered_def not_found_def t
        split: prod.splits sum.splits)
qed


lemma main_outcome:
  assumes p: "parse_args L argv = Namespace args fmt"
    and m: "main L argv line env (start w) = (r, io')"
  shows "(\<exists>ids items rows io2.
            r = Inr () \<and> requested_ids args line = Some ids \<and> ids \<noteq> [] \<and> api_key_of env \<noteq> [] \<and>
            fetch_videos L (api_key_of env) ids ((start w)\<lparr>stdout := prompt_out args\<rparr>) = (Inr items, io2) \<and>
            requests io' = requests io2 \<and>
            items_to_rows (iso_date L) items None = Inr rows \<and> rows \<noteq> [] \<and>
            stdout io' = prompt_out args @ [rendered fmt rows])
         \<or> (exit_code r = 1 \<and> stdout io' = prompt_out args)"
proof (cases "requested_ids args line")
  case None
  from m main_no_ids [OF p None, of env w] show ?thesis
    by (auto simp: eprint_def)
next
  case (Some ids)
  let ?io1 = "(start w)\<lparr>stdout := prompt_out args\<rparr>"
  note mi = main_ids [OF p Some, of env w]
  show ?thesis
  proof (cases "ids = [] \<or> api_key_of env = []")
    case True
    with m mi have "exit_code r = 1 \<and> stdout io' = prompt_out args"
      by (auto simp: eprint_def Let_def split: if_splits)
    then show ?thesis ..
  next
    case False
    obtain r2 io2 where f: "fetch_videos L (api_key_of env) ids ?io1 = (r2, io2)"
      by (cases "fetch_videos L (api_key_of env) ids ?io1")
    from fetch_videos_result [OF f] have so: "stdout io2 = prompt_out args"
      and ab: "\<And>a. r2 = Inl a \<Longrightarrow> exit_code (Inl a) = 1"
      by auto
    show ?thesis
    proof (cases r2)
      case (Inl a)
      with m mi False f have "r = Inl a" "io' = io2" by (simp_all add: Let_def)
      with ab [OF Inl] so have "exit_code r = 1 \<and> stdout io' = prompt_out args" by simp
      then show ?thesis ..
    next
      case (Inr items)
      note items = this
      show ?thesis
      proof (cases "found_ids items")
        case (Inl e)
        with m mi False f items have "r = Inl (Uncaught e)" "io' = io2" by (simp_all add: Let_def)
        with so have "exit_code r = 1 \<and> stdout io' = prompt_out args" by simp
        then show ?thesis ..
      next
        case (Inr found)
        note found = this
        let ?io3 = "io2\<lparr>stderr := stderr io2 @ not_found ids found\<rparr>"
        show ?thesis
        proof (cases "items_to_rows (iso_date L) items None")
          case (Inl e)
          with m mi False f items found have "r = Inl (Uncaught e)" "io' = ?io3"
            by (simp_all add: Let_def)
          with so have "exit_code r = 1 \<and> stdout io' = prompt_out args" by simp
          then show ?thesis ..
        next
          case (Inr rows)
          show ?thesis
          proof (cases "rows = []")
            case True
            with m mi False f items found Inr have "r = Inl (SysExit 1)" "io' = ?io3"
              by (simp_all add: Let_def)
            with so have "exit_code r = 1 \<and> stdout io' = prompt_out args" by simp
            then show ?thesis ..
          next
            case nonempty: False
            with m mi False f items found Inr have "r = Inr ()"
              "io' = ?io3\<lparr>stdout := stdout ?io3 @ [rendered fmt rows]\<rparr>"
              by (simp_all add: Let_def)
            with so False f items Inr nonempty Some
            have "r = Inr () \<and> requested_ids args line = Some ids \<and> ids \<noteq> [] \<and> api_key_of env \<noteq> [] \<and>
                  fetch_videos L (api_key_of env) ids ?io1 = (Inr items, io2) \<and>
                  requests io' = requests io2 \<and>
                  items_to_rows (iso_date L) items None = Inr rows \<and> rows \<noteq> [] \<and>
                  stdout io' = prompt_out args @ [rendered fmt rows]"
              by simp
            then show ?thesis by blast
          qed
        qed
      qed
    qed
  qed
qed


lemma escape_pipes_explicit:
  "escape_pipes_for_markdown rows =
     map (map (\<lambda>(k, v). (k, case v of
                                JStr s \<Rightarrow> JStr (concat (map (\<lambda>c. if c = CHR ''|'' then [CHR 0x5C, CHR ''|''] else [c]) s))
                              | _ \<Rightarrow> v))) rows"
proof -
  have cell: "escape_cell v = (case v of
                                JStr s \<Rightarrow> JStr (concat (map (\<lambda>c. if c = CHR ''|'' then [CHR 0x5C, CHR ''|''] else [c]) s))
                              | _ \<Rightarrow> v)" for v
    by (simp add: escape_cell_def str_replace_char split: json.splits)
  show ?thesis unfolding escape_pipes_for_markdown_def cell ..
qed


lemma main_rendered:
  assumes "parse_args L argv = Namespace args fmt"
    and "main L argv line env (start w) = (Inr (), io')"
  shows "\<exists>ids items rs io2.
           fetch_videos L (api_key_of env) ids ((start w)\<lparr>stdout := prompt_out args\<rparr>) = (Inr items, io2) \<and>
           items_to_rows (iso_date L) items None = Inr rs \<and> rs \<noteq> [] \<and>
           stdout io' = prompt_out args @ [rendered fmt rs]"
  using main_outcome [OF assms] by auto

text \<open>
  C8: \<open>_escape_pipes_for_markdown\<close> keeps the labels and the cells that are not strings,
  and in every string cell puts a backslash before each pipe character (\<open>a|b\<close> becomes
  \<open>a\|b\<close>). A run that renders a table in the Markdown format hands the escaped rows to
  the renderer; in the grid format it hands over the rows as built.
\<close>

theorem markdown_escaping:
  "escape_pipes_for_markdown rows =
     map (map (\<lambda>(k, v). (k, case v of
                                JStr s \<Rightarrow> JStr (concat (map (\<lambda>c. if c = CHR ''|'' then [CHR 0x5C, CHR ''|''] else [c]) s))
                              | _ \<Rightarrow> v))) rows \<and>
   escape_cell (JStr ''a|b'') = JStr [CHR ''a'', CHR 0x5C, CHR ''|'', CHR ''b''] \<and>
   (parse_args L argv = Namespace args Markdown \<and> main L argv line env (start w) = (Inr (), io') \<longrightarrow>
      (\<exists>ids items rs io2.
         fetch_videos L (api_key_of env) ids ((start w)\<lparr>stdout := prompt_out args\<rparr>) = (Inr items, io2) \<and>
         items_to_rows (iso_date L) items None = Inr rs \<and> rs \<noteq> [] \<and>
         stdout io' = prompt_out args @ [Table ''pipe'' (escape_pipes_for_markdown rs)])) \<and>
   (parse_args L argv = Namespace args Grid \<and> main L argv line env (start w) = (Inr (), io') \<longrightarrow>
      (\<exists>ids items rs io2.
         fetch_videos L (api_key_of env) ids ((start w)\<lparr>stdout := prompt_out args\<rparr>) = (Inr items, io2) \<and>
         items_to_rows (iso_date L) items None = Inr rs \<and> rs \<noteq> [] \<and>
         stdout io' = prompt_out args @ [Table ''grid'' rs]))"
proof -
  have v: "escape_cell (JStr ''a|b'') = JStr [CHR ''a'', CHR 0x5C, CHR ''|'', CHR ''b'']"
    by code_simp
  have md: "parse_args L argv = Namespace args Markdown \<and> main L argv line env (start w) = (Inr (), io') \<longrightarrow>
      (\<exists>ids items rs io2.
         fetch_videos L (api_key_of env) ids ((start w)\<lparr>stdout := prompt_out args\<rparr>) = (Inr items, io2) \<and>
         items_to_rows (iso_date L) items None = Inr rs \<and> rs \<noteq> [] \<and>
         stdout io' = prompt_out args @ [Table ''pipe'' (escape_pipes_for_markdown rs)])"
    using main_rendered [of L argv args Markdown line env w io'] by (simp add: rendered_def)
  have gr: "parse_args L argv = Namespace args Grid \<and> main L argv line env (start w) = (Inr (), io') \<longrightarrow>
      (\<exists>ids items rs io2.
         fetch_videos L (api_key_of env) ids ((start w)\<lparr>stdout := prompt_out args\<rparr>) = (Inr items, io2) \<and>
         items_to_rows (iso_date L) items None = Inr rs \<and> rs \<noteq> [] \<and>
         stdout io' = prompt_out args @ [Table ''grid'' rs])"
    using main_rendered [of L argv args Grid line env w io'] by (simp add: rendered_def)
  from escape_pipes_explicit [of rows] v md gr show ?thesis by (intro conjI)
qed

theorem markdown_escaping_witness:
  "parse_args mock_lib [''X''] = Namespace [''X''] Markdown \<and>
   main mock_lib [''X''] None (Some ''k'') (start (0::nat)) =
     (Inr (),
      \<lparr>world = 1,
       requests = [(''https://www.googleapis.com/youtube/v3/videos?key=k&part=snippet,contentDetails,statistics&id=X'',
                    Body ''ok'')],
       stdout = [Table ''pipe''
                  [[(''id'', JStr ''X''), (''title'', JStr [CHR ''a'', CHR 0x5C, CHR ''|'', CHR ''b'']),
                    (''publication date'', JStr []), (''channel title'', JStr []),
                    (''view count'', JStr ''0''), (''like count'', JStr ''0''),
                    (''comment count'', JStr ''0''), (''duration'', JStr [])]]],
       stderr = []\<rparr>) \<and>
   (\<exists>rs. rs \<noteq> [] \<and>
      [Table ''pipe''
        [[(''id'', JStr ''X''), (''title'', JStr [CHR ''a'', CHR 0x5C, CHR ''|'', CHR ''b'']),
          (''publication date'', JStr []), (''channel title'', JStr []),
          (''view count'', JStr ''0''), (''like count'', JStr ''0''),
          (''comment count'', JStr ''0''), (''duration'', JStr [])]]]
        = prompt_out [''X''] @ [Table ''pipe'' (escape_pipes_for_markdown rs)])"
proof -
  let ?table = "[Table ''pipe''
                  [[(''id'', JStr ''X''), (''title'', JStr [CHR ''a'', CHR 0x5C, CHR ''|'', CHR ''b'']),
                    (''publication date'', JStr []), (''channel title'', JStr []),
                    (''view count'', JStr ''0''), (''like count'', JStr ''0''),
                    (''comment count'', JStr ''0''), (''duration'', JStr [])]]]"
  let ?io = "\<lparr>world = 1::nat,
       requests = [(''https://www.googleapis.com/youtube/v3/videos?key=k&part=snippet,contentDetails,statistics&id=X'',
                    Body ''ok'')],
       stdout = ?table, stderr = []\<rparr>"
  have p: "parse_args mock_lib [''X''] = Namespace [''X''] Markdown"
    by code_simp
  have e: "main mock_lib [''X''] None (Some ''k'') (start (0::nat)) = (Inr (), ?io)"
    by code_simp
  note T = markdown_escaping [where L = mock_lib and argv = "[''X'']" and args = "[''X'']"
                                and line = None and env = "Some ''k''" and w = "0::nat" and io' = ?io]
  note c = T [THEN conjunct2, THEN conjunct2, THEN conjunct1, THEN mp, OF conjI, OF p e]
  from c obtain rs where "rs \<noteq> []"
    and "stdout ?io = prompt_out [''X''] @ [Table ''pipe'' (escape_pipes_for_markdown rs)]"
    by (elim exE conjE)
  then have "\<exists>rs. rs \<noteq> [] \<and> ?table = prompt_out [''X''] @ [Table ''pipe'' (escape_pipes_for_markdown rs)]"
    by (intro exI [of _ rs]) simp
  with p e show ?thesis by (intro conjI)
qed

lemma not_good_errors:
  "\<not> good_response L (HTTPError code body)"
  "\<not> good_response L (URLError reason)"
  "json_loads L data = Inl e \<Longrightarrow> \<not> good_response L (Body data)"
  by (simp_all add: good_response_def response_items_def)

lemma no_table_in_prompt: "Table t rows \<notin> set (prompt_out args)"
  by (simp add: prompt_out_def)

lemma rendered_table:
  "rows \<noteq> [] \<Longrightarrow> \<exists>t rs. rs \<noteq> [] \<and> rendered fmt rows = Table t rs"
  by (simp add: rendered_def escape_pipes_for_markdown_def)

lemma items_to_rows_length:
  "items_to_rows d items None = Inr rows \<Longrightarrow> length rows = length items"
  using keys_build_rows [of "COLUMN_EXTRACTORS d" DEFAULT_TABLE_COLUMNS items rows]
  by (simp add: items_to_rows_def)


lemma blank_key_strip: "blank_key env \<Longrightarrow> api_key_of env = []"
proof (cases env)
  case None
  then show ?thesis by (simp add: api_key_of_def strip_def)
next
  case (Some v)
  assume "blank_key env"
  with Some have "\<forall>c \<in> set v. is_space c" by (simp add: blank_key_def list_all_iff)
  then have d: "dropWhile is_space v = []" using dropWhile_eq_Nil_conv [of is_space v] by blast
  have "strip v = []" unfolding strip_def d by simp
  with Some show ?thesis by (simp add: api_key_of_def)
qed

lemma empty_arrays_no_items:
  assumes "\<forall>x \<in> set xs. items_array L (snd x) = Some []"
  shows "concat (map (\<lambda>x. items_of L (snd x)) xs) = []"
proof -
  have "items_of L (snd x) = []" if "x \<in> set xs" for x
    using assms that items_array_good [of L "snd x"] by simp
  then show ?thesis by simp
qed

text \<open>
  C9, as the claim states it, fails on the command line: asked for help, the program
  prints the usage text and exits with status 0, with no API key set and no row rendered;
  and a format that is not one of the two choices ends the run with status 2.
\<close>

theorem exit_codes_help:
  "main mock_lib [''--help''] None None (start (0::nat)) =
     (Inl (SysExit 0),
      \<lparr>world = 0, requests = [],
       stdout = [Printed ''usage: yt-extract [-h] [--format {grid,markdown}] [video_ids ...]''],
       stderr = []\<rparr>) \<and>
   exit_code (Inl (SysExit 0)) = 0 \<and>
   main mock_lib [''--format'', ''html'', ''X''] None (Some ''k'') (start (0::nat)) =
     (Inl (SysExit 2),
      \<lparr>world = 0, requests = [], stdout = [],
       stderr = [''yt-extract: error: argument --format: invalid choice'']\<rparr>) \<and>
   exit_code (Inl (SysExit 2)) = 2"
  by code_simp

text \<open>
  C9, amended: a run ends with exit status 0, 1 or 2. The status is 0 exactly when the run
  has rendered a table of at least one row or the command line asked for help, in which
  case only the help text is printed; it is 2 exactly when the command line is refused.
  On a command line that is accepted the status is 1 when the API key is missing or
  blank, when no identifier is left after normalization (or the input ended before a line
  was read), and when every response held an empty items array. The status is 1 as well
  when a request met an HTTP error or a transport error, and when a response was not
  JSON.
\<close>

theorem exit_codes:
  assumes "main L argv line env (start w) = (r, io')"
  shows "(exit_code r = 0 \<or> exit_code r = 1 \<or> exit_code r = 2) \<and>
         (exit_code r = 0 \<longleftrightarrow>
            (\<exists>t rows. rows \<noteq> [] \<and> Table t rows \<in> set (stdout io')) \<or>
            (\<exists>text. parse_args L argv = HelpExit text)) \<and>
         (\<forall>text. parse_args L argv = HelpExit text \<longrightarrow> stdout io' = [Printed text]) \<and>
         (exit_code r = 2 \<longleftrightarrow> (\<exists>text. parse_args L argv = UsageError text)) \<and>
         (\<forall>args fmt. parse_args L argv = Namespace args fmt \<longrightarrow>
            (blank_key env \<longrightarrow> exit_code r = 1) \<and>
            (requested_ids args line = None \<or> requested_ids args line = Some [] \<longrightarrow> exit_code r = 1) \<and>
            ((\<forall>x \<in> set (requests io'). items_array L (snd x) = Some []) \<longrightarrow> exit_code r = 1)) \<and>
         ((\<exists>u code body. (u, HTTPError code body) \<in> set (requests io')) \<longrightarrow> exit_code r = 1) \<and>
         ((\<exists>u reason. (u, URLError reason) \<in> set (requests io')) \<longrightarrow> exit_code r = 1) \<and>
         ((\<exists>u data e. (u, Body data) \<in> set (requests io') \<and> json_loads L data = Inl e)
            \<longrightarrow> exit_code r = 1)"
proof (cases "parse_args L argv")
  case (HelpExit msg)
  from main_help [OF HelpExit, of line env w] assms
  have "r = Inl (SysExit 0)" "stdout io' = [Printed msg]" "requests io' = []"
    by (auto simp: start_def)
  with HelpExit show ?thesis by simp
next
  case (UsageError msg)
  from main_usage [OF UsageError, of line env w] assms
  have "r = Inl (SysExit 2)" "stdout io' = []" "requests io' = []"
    by (auto simp: start_def eprint_def)
  with UsageError show ?thesis by simp
next
  case (Namespace args fmt)
  from main_outcome [OF Namespace assms] consider
    (ok) ids items rows io2 where "r = Inr ()" "requested_ids args line = Some ids" "ids \<noteq> []"
      "api_key_of env \<noteq> []"
      "fetch_videos L (api_key_of env) ids ((start w)\<lparr>stdout := prompt_out args\<rparr>) = (Inr items, io2)"
      "requests io' = requests io2" "items_to_rows (iso_date L) items None = Inr rows" "rows \<noteq> []"
      "stdout io' = prompt_out args @ [rendered fmt rows]"
  | (fail) "exit_code r = 1" "stdout io' = prompt_out args"
    by blast
  then show ?thesis
  proof cases
    case ok
    from fetch_videos_result [OF ok(5)] ok(6)
    have good: "\<forall>x \<in> set (requests io'). good_response L (snd x)"
      and items: "items = concat (map (\<lambda>x. items_of L (snd x)) (requests io'))"
      by (auto simp: start_def)
    from rendered_table [OF ok(8), of fmt] obtain t rs where "rs \<noteq> []" "rendered fmt rows = Table t rs"
      by blast
    with ok(9) have "rs \<noteq> [] \<and> Table t rs \<in> set (stdout io')" by simp
    then have table: "\<exists>t rows. rows \<noteq> [] \<and> Table t rows \<in> set (stdout io')" by blast
    have http: "\<not> (\<exists>u code body. (u, HTTPError code body) \<in> set (requests io'))"
      using good not_good_errors(1) [of L] by force
    have url: "\<not> (\<exists>u reason. (u, URLError reason) \<in> set (requests io'))"
      using good not_good_errors(2) [of L] by force
    have js: "\<not> (\<exists>u data e. (u, Body data) \<in> set (requests io') \<and> json_loads L data = Inl e)"
      using good not_good_errors(3) [of L] by force
    have empty: "\<not> (\<forall>x \<in> set (requests io'). items_array L (snd x) = Some [])"
    proof
      assume "\<forall>x \<in> set (requests io'). items_array L (snd x) = Some []"
      from empty_arrays_no_items [OF this] items have "items = []" by simp
      with items_to_rows_length [OF ok(7)] ok(8) show False by simp
    qed
    have key: "\<not> blank_key env" using ok(4) blank_key_strip [of env] by blast
    from ok(1) have z: "exit_code r = 0" by simp
    from z table ok(2,3) key http url js empty Namespace show ?thesis by simp
  next
    case fail
    from fail(2) have "\<not> (\<exists>t rows. rows \<noteq> [] \<and> Table t rows \<in> set (stdout io'))"
      by (simp add: no_table_in_prompt)
    with fail(1) Namespace show ?thesis by simp
  qed
qed

theorem exit_codes_witness:
  "parse_args mock_lib [''--format'', ''grid'', ''X''] = Namespace [''X''] Grid \<and>
   main mock_lib [''--format'', ''grid'', ''X''] None (Some '' '') (start (0::nat)) =
     (Inl (SysExit 1),
      \<lparr>world = 0, requests = [], stdout = [],
       stderr = [''yt-extract: Set YOUTUBE_DATA_API_KEY in your environment.'']\<rparr>) \<and>
   blank_key (Some '' '') \<and>
   exit_code (Inl (SysExit 1)) = 1 \<and>
   main mock_lib [''--format'', ''grid'', ''X''] None (Some ''k'') (start (0::nat)) =
     (Inr (),
      \<lparr>world = 1,
       requests = [(''https://www.googleapis.com/youtube/v3/videos?key=k&part=snippet,contentDetails,statistics&id=X'',
                    Body ''ok'')],
       stdout = [Table ''grid''
                  [[(''id'', JStr ''X''), (''title'', JStr ''a|b''),
                    (''publication date'', JStr []), (''channel title'', JStr []),
                    (''view count'', JStr ''0''), (''like count'', JStr ''0''),
                    (''comment count'', JStr ''0''), (''duration'', JStr [])]]],
       stderr = []\<rparr>) \<and>
   exit_code (Inr ()) = 0"
proof -
  let ?argv = "[''--format'', ''grid'', ''X'']"
  let ?io = "\<lparr>world = 0::nat, requests = [], stdout = [],
       stderr = [''yt-extract: Set YOUTUBE_DATA_API_KEY in your environment.'']\<rparr>"
  let ?io2 = "\<lparr>world = 1::nat,
       requests = [(''https://www.googleapis.com/youtube/v3/videos?key=k&part=snippet,contentDetails,statistics&id=X'',
                    Body ''ok'')],
       stdout = [Table ''grid''
                  [[(''id'', JStr ''X''), (''title'', JStr ''a|b''),
                    (''publication date'', JStr []), (''channel title'', JStr []),
                    (''view count'', JStr ''0''), (''like count'', JStr ''0''),
                    (''comment count'', JStr ''0''), (''duration'', JStr [])]]],
       stderr = []\<rparr>"
  have p: "parse_args mock_lib ?argv = Namespace [''X''] Grid" by code_simp
  have e: "main mock_lib ?argv None (Some '' '') (start (0::nat)) = (Inl (SysExit 1), ?io)"
    by code_simp
  have k: "blank_key (Some '' '')" by code_simp
  note n = exit_codes [OF e, THEN conjunct2, THEN conjunct2, THEN conjunct2, THEN conjunct2,
                        THEN conjunct1, THEN spec, THEN spec, THEN mp, OF p]
  note c = n [THEN conjunct1, THEN mp, OF k]
  have e2: "main mock_lib ?argv None (Some ''k'') (start (0::nat)) = (Inr (), ?io2)"
    by code_simp
  have t: "(\<exists>t rows. rows \<noteq> [] \<and> Table t rows \<in> set (stdout ?io2)) \<or>
           (\<exists>text. parse_args mock_lib ?argv = HelpExit text)"
    by (intro disjI1 exI [of _ "''grid''"] exI [of _ "[[(''id'', JStr ''X''), (''title'', JStr ''a|b''),
                    (''publication date'', JStr []), (''channel title'', JStr []),
                    (''view count'', JStr ''0''), (''like count'', JStr ''0''),
                    (''comment count'', JStr ''0''), (''duration'', JStr [])]]"]) simp
  note z = exit_codes [OF e2, THEN conjunct2, THEN conjunct1, THEN iffD2, OF t]
  from p e k c e2 z show ?thesis by (intro conjI)
qed

end
